theory Spec2Isabelle
  imports Main "HOL-Library.Word" "HOL-Library.Signed_Division"
begin

unbundle bit_operations_syntax

section \<open>The LoRa demodulator block (LoRaDemod.cpp)\<close>

text \<open>
  A shallow embedding of the class \<^verbatim>\<open>LoRaDemod\<close>: its members as a record, its
  member functions as functions on that record, and the effects of one \<^verbatim>\<open>work()\<close>
  call on the ports as a record of effects.

  Machine types: \<^verbatim>\<open>size_t\<close> is a 64-bit word (LP64), \<^verbatim>\<open>short\<close> and
  \<^verbatim>\<open>int16_t\<close> are 16-bit words read through \<open>sint\<close>, \<^verbatim>\<open>unsigned char\<close> is an 8-bit
  word. The sample type \<^verbatim>\<open>std::complex<float>\<close> is a type variable \<open>'s\<close>, and its
  product \<^verbatim>\<open>operator*\<close> is a parameter \<open>mul\<close> of \<open>work\<close>: nothing below depends on
  floating-point arithmetic.
\<close>

type_synonym size_t = "64 word"
type_synonym int16 = "16 word"
type_synonym uchar = "8 word"

datatype LoraDemodState =
    STATE_FRAMESYNC
  | STATE_DOWNCHIRP0
  | STATE_DOWNCHIRP1
  | STATE_QUARTERCHIRP
  | STATE_DATASYMBOLS

text \<open>
  The member \<^verbatim>\<open>_chirpTable\<close> is a pointer that holds either \<^verbatim>\<open>_upChirpTable.data()\<close>
  or \<^verbatim>\<open>_downChirpTable.data()\<close>; it is modelled by the name of the vector it points into.
\<close>

datatype chirp_ref = UpChirpTable | DownChirpTable

text \<open>
  Undefined behaviour of the C++ program is a value of the model: an indexed access
  outside its buffer, and a shift \<^verbatim>\<open>1 << sf\<close> whose result does not fit \<^verbatim>\<open>int\<close>.
\<close>

datatype ub = OutOfBounds | ShiftOverflow

text \<open>
  The members of the class, without the leading underscore. The member \<^verbatim>\<open>_id\<close> is
  \<open>label_id\<close>. The detector \<^verbatim>\<open>_detector\<close> (LoRaDetector.hpp, not part of this file) is
  taken as it is given: the function from the \<open>N\<close> samples fed to it with
  \<^verbatim>\<open>feed(i, decd)\<close>, in index order, to the value \<^verbatim>\<open>detect()\<close> returns for them. Every
  call of \<^verbatim>\<open>detect()\<close> in \<^verbatim>\<open>work()\<close> follows \<open>N\<close> calls of \<^verbatim>\<open>feed\<close> that overwrite all
  samples. A cell of \<^verbatim>\<open>_outSymbols\<close> is \<open>None\<close> until it is written: the buffer chunk is
  allocated without initialisation.
\<close>

record 's LoRaDemod =
  N :: size_t
  detector :: "'s list \<Rightarrow> size_t"
  chirpTable :: chirp_ref
  upChirpTable :: "'s list"
  downChirpTable :: "'s list"
  sync :: uchar
  mtu :: size_t
  state :: LoraDemodState
  symCount :: size_t
  outSymbols :: "int16 option list"
  label_id :: string
  prevValue :: int16

text \<open>
  What one call of \<^verbatim>\<open>work()\<close> reads from the ports: the buffer of input port 0 (its
  \<^verbatim>\<open>elements()\<close> is the length of the list) and the free elements of the two debug ports.
\<close>

record 's work_in =
  inBuff :: "'s list"
  rawElements :: size_t
  decElements :: size_t

text \<open>
  What one call of \<^verbatim>\<open>work()\<close> does to the ports: \<open>consumed\<close> is the argument of
  \<^verbatim>\<open>inPort->consume\<close> (and of \<^verbatim>\<open>produce\<close> on both debug ports), \<open>rawBuff\<close> and \<open>decBuff\<close>
  are the samples written to the debug buffers, \<open>label\<close> the label posted on both debug
  ports, \<open>posted\<close> the payload of the packet posted on output port 0, \<open>rawPopped\<close> and
  \<open>decPopped\<close> the arguments of \<^verbatim>\<open>popBuffer\<close>. \<open>detected\<close> records the local
  variable \<^verbatim>\<open>value\<close>, so that properties can name the symbol a step detected.
\<close>

record 's work_out =
  consumed :: size_t
  rawBuff :: "'s list"
  decBuff :: "'s list"
  label :: "string option"
  posted :: "int16 option list option"
  rawPopped :: "size_t option"
  decPopped :: "size_t option"
  detected :: "size_t option"

subsection \<open>Construction and configuration\<close>

text \<open>
  The constructor. \<open>mem\<close> gives the members the constructor leaves uninitialised
  (\<^verbatim>\<open>_chirpTable\<close>, \<^verbatim>\<open>_state\<close>, \<^verbatim>\<open>_symCount\<close>, \<^verbatim>\<open>_prevValue\<close>) and the detector built
  from \<open>N\<close>; \<open>up i\<close> and \<open>down i\<close> are the floating-point values
  \<^verbatim>\<open>std::complex<float>(std::conj(entry))\<close> and \<^verbatim>\<open>std::complex<float>(entry)\<close> pushed in
  iteration \<open>i\<close> of the table loop. \<^verbatim>\<open>1 << sf\<close> is a shift of the \<^verbatim>\<open>int\<close> 1: it is
  \<open>2 ^ sf\<close> for \<open>sf < 31\<close> and has no value that fits \<^verbatim>\<open>int\<close> beyond.
\<close>

definition LoRaDemod ::
    "'s LoRaDemod \<Rightarrow> (nat \<Rightarrow> 's) \<Rightarrow> (nat \<Rightarrow> 's) \<Rightarrow> nat \<Rightarrow> ub + 's LoRaDemod" where
  "LoRaDemod mem up down sf =
     (if 31 \<le> sf then Inl ShiftOverflow
      else Inr (mem\<lparr>N := push_bit sf 1,
                     sync := 0x12,
                     mtu := 256,
                     upChirpTable := map up [0..<2 ^ sf],
                     downChirpTable := map down [0..<2 ^ sf],
                     outSymbols := [],
                     label_id := []\<rparr>))"

definition setSync :: "'s LoRaDemod \<Rightarrow> uchar \<Rightarrow> 's LoRaDemod" where
  "setSync d s = d\<lparr>sync := s\<rparr>"

definition setMTU :: "'s LoRaDemod \<Rightarrow> size_t \<Rightarrow> 's LoRaDemod" where
  "setMTU d m = d\<lparr>mtu := m\<rparr>"

definition activate :: "'s LoRaDemod \<Rightarrow> 's LoRaDemod" where
  "activate d = d\<lparr>state := STATE_FRAMESYNC, chirpTable := UpChirpTable\<rparr>"

subsection \<open>The processing step\<close>

text \<open>The vector \<^verbatim>\<open>_chirpTable\<close> points into.\<close>

definition table :: "'s LoRaDemod \<Rightarrow> 's list" where
  "table d = (case chirpTable d of
                UpChirpTable \<Rightarrow> upChirpTable d
              | DownChirpTable \<Rightarrow> downChirpTable d)"

text \<open>
  The loop \<^verbatim>\<open>for (i = 0; i < N; i++) decd = inBuff[i + off]*_chirpTable[i]\<close>: the list of
  the \<open>n\<close> products fed to the detector, or an access outside a buffer.
\<close>

definition dechirp ::
    "('s \<Rightarrow> 's \<Rightarrow> 's) \<Rightarrow> 's list \<Rightarrow> 's list \<Rightarrow> nat \<Rightarrow> nat \<Rightarrow> ub + 's list" where
  "dechirp mul tab buf off n =
     (if length tab < n \<or> length buf < off + n then Inl OutOfBounds
      else Inr (map (\<lambda>i. mul (buf ! (off + i)) (tab ! i)) [0..<n]))"

text \<open>Division of \<^verbatim>\<open>int\<close> in C++ truncates towards zero.\<close>

definition c_div :: "int \<Rightarrow> int \<Rightarrow> int" where
  "c_div a b = (if (a < 0) = (b < 0) then \<bar>a\<bar> div \<bar>b\<bar> else - (\<bar>a\<bar> div \<bar>b\<bar>))"

text \<open>
  The three tests of \<^verbatim>\<open>STATE_FRAMESYNC\<close>. \<^verbatim>\<open>_prevValue+1\<close> is computed in \<^verbatim>\<open>int\<close>;
  \<^verbatim>\<open>value+4\<close> and \<^verbatim>\<open>value1+4\<close> in \<^verbatim>\<open>size_t\<close>, to which the nibbles are converted.
\<close>

definition framesync_syncd :: "int16 \<Rightarrow> bool" where
  "framesync_syncd p = (c_div (sint p + 1) 2 = 0)"

definition framesync_match0 :: "size_t \<Rightarrow> uchar \<Rightarrow> bool" where
  "framesync_match0 v s = ((v + 4) div 8 = ucast (drop_bit 4 s))"

definition sync_word1 :: "size_t \<Rightarrow> uchar \<Rightarrow> bool" where
  "sync_word1 v1 s = ((v1 + 4) div 8 = ucast (s AND 0xf))"

text \<open>
  The local \<^verbatim>\<open>match1\<close>: false unless \<^verbatim>\<open>syncd and match0\<close>, in which case the second block
  of the input buffer is dechirped and detected. The samples of that block are mirrored to
  the debug buffers as well.
\<close>

definition framesync_match1 ::
    "('s \<Rightarrow> 's \<Rightarrow> 's) \<Rightarrow> 's work_in \<Rightarrow> 's LoRaDemod \<Rightarrow> size_t \<Rightarrow> ub + (bool \<times> 's list)" where
  "framesync_match1 mul io d v =
     (if framesync_syncd (prevValue d) \<and> framesync_match0 v (sync d) then
        (case dechirp mul (table d) (inBuff io) (unat (N d)) (unat (N d)) of
           Inl e \<Rightarrow> Inl e
         | Inr decd1 \<Rightarrow> Inr (sync_word1 (detector d decd1) (sync d), decd1))
      else Inr (False, []))"

text \<open>
  The end of \<^verbatim>\<open>work()\<close>, after the switch: the label is posted when \<^verbatim>\<open>_id\<close> is not
  empty, \<open>tot\<close> samples (the local \<^verbatim>\<open>total\<close>) are consumed and produced, and
  \<^verbatim>\<open>_prevValue = value\<close> keeps the low 16 bits of the detected value.
\<close>

definition work_end ::
    "'s LoRaDemod \<Rightarrow> size_t \<Rightarrow> size_t \<Rightarrow> 's list \<Rightarrow> 's list \<Rightarrow> int16 option list option
      \<Rightarrow> 's LoRaDemod \<times> 's work_out" where
  "work_end d tot v rawb decb msg =
     (d\<lparr>prevValue := ucast v\<rparr>,
      \<lparr>consumed = tot, rawBuff = rawb, decBuff = decb,
       label = (if label_id d = [] then None else Some (label_id d)),
       posted = msg, rawPopped = None, decPopped = None, detected = Some v\<rparr>)"

text \<open>
  A call that returns before processing: nothing is consumed, produced or posted; the
  arguments are what is popped from the raw and from the dec debug port.
\<close>

definition early_return :: "size_t option \<Rightarrow> size_t option \<Rightarrow> 's work_out" where
  "early_return rp dp =
     \<lparr>consumed = 0, rawBuff = [], decBuff = [], label = None, posted = None,
      rawPopped = rp, decPopped = dp, detected = None\<rparr>"

text \<open>
  The switch on \<^verbatim>\<open>_state\<close>, given the detected \<open>v\<close> of the first block and its dechirped
  samples \<open>decd\<close>. In \<^verbatim>\<open>STATE_DATASYMBOLS\<close> the write
  \<^verbatim>\<open>_outSymbols.as<int16_t *>()[_symCount] = int16_t(value)\<close> is outside the chunk when
  \<^verbatim>\<open>_symCount\<close> is not below the number of elements it was allocated with. The packet's
  payload shares the chunk; the chunk is not written again before \<^verbatim>\<open>STATE_DOWNCHIRP1\<close>
  replaces it, so the payload is the list at the time of posting.
\<close>

definition work_switch ::
    "('s \<Rightarrow> 's \<Rightarrow> 's) \<Rightarrow> 's work_in \<Rightarrow> 's LoRaDemod \<Rightarrow> size_t \<Rightarrow> 's list
      \<Rightarrow> ub + ('s LoRaDemod \<times> 's work_out)" where
  "work_switch mul io d v decd =
     (let n = unat (N d); raw = take n (inBuff io) in
      case state d of
        STATE_FRAMESYNC \<Rightarrow>
          (case framesync_match1 mul io d v of
             Inl e \<Rightarrow> Inl e
           | Inr (match1, decd1) \<Rightarrow>
               let raw1 = take (n + length decd1) (inBuff io) in
               if framesync_syncd (prevValue d) \<and> framesync_match0 v (sync d) \<and> match1 then
                 Inr (work_end (d\<lparr>state := STATE_DOWNCHIRP0, chirpTable := DownChirpTable,
                                  label_id := ''SYNC''\<rparr>)
                        (2 * N d) v raw1 (decd @ decd1) None)
               else
                 Inr (work_end (d\<lparr>label_id := ''X''\<rparr>) (N d - v) v raw1 (decd @ decd1) None))
      | STATE_DOWNCHIRP0 \<Rightarrow>
          Inr (work_end (d\<lparr>state := STATE_DOWNCHIRP1, label_id := ''DC''\<rparr>) (N d) v raw decd None)
      | STATE_DOWNCHIRP1 \<Rightarrow>
          Inr (work_end (d\<lparr>state := STATE_QUARTERCHIRP, chirpTable := UpChirpTable,
                           label_id := [],
                           outSymbols := replicate (unat (mtu d)) None\<rparr>)
                 (N d) v raw decd None)
      | STATE_QUARTERCHIRP \<Rightarrow>
          Inr (work_end (d\<lparr>state := STATE_DATASYMBOLS, symCount := 0, label_id := ''QC''\<rparr>)
                 (N d div 4) v raw decd None)
      | STATE_DATASYMBOLS \<Rightarrow>
          if length (outSymbols d) \<le> unat (symCount d) then Inl OutOfBounds
          else
            let out = (outSymbols d)[unat (symCount d) := Some (ucast v)];
                cnt = symCount d + 1
            in if mtu d \<le> cnt then
                 Inr (work_end (d\<lparr>outSymbols := out, symCount := cnt,
                                  state := STATE_FRAMESYNC, label_id := ''S''\<rparr>)
                        (N d) v raw decd (Some out))
               else
                 Inr (work_end (d\<lparr>outSymbols := out, symCount := cnt, label_id := ''S''\<rparr>)
                        (N d) v raw decd None))"

text \<open>
  \<^verbatim>\<open>work()\<close>: the three early returns, then the first block is dechirped with the
  current chirp table, detected, and the switch runs.
\<close>

definition work ::
    "('s \<Rightarrow> 's \<Rightarrow> 's) \<Rightarrow> 's work_in \<Rightarrow> 's LoRaDemod \<Rightarrow> ub + ('s LoRaDemod \<times> 's work_out)" where
  "work mul io d =
     (if length (inBuff io) < unat (N d * 2) then Inr (d, early_return None None)
      else if rawElements io < N d * 2 then
        Inr (d, early_return (Some (rawElements io)) None)
      else if decElements io < N d * 2 then
        Inr (d, early_return None (Some (decElements io)))
      else (case dechirp mul (table d) (inBuff io) 0 (unat (N d)) of
              Inl e \<Rightarrow> Inl e
            | Inr decd \<Rightarrow> work_switch mul io d (detector d decd) decd))"

subsection \<open>Successive steps over a buffered input stream\<close>

text \<open>
  \<open>run\<close> calls \<^verbatim>\<open>work()\<close> once for each pair of free debug-port elements in its list. Each
  call sees the unconsumed input; what it consumes is dropped before the next call (a call
  consumes at most what is buffered unless the detector returns a value above \<open>N\<close>; then
  nothing is left). The trace holds, for each call, the state it was made in and its
  effects.
\<close>

fun run ::
    "('s \<Rightarrow> 's \<Rightarrow> 's) \<Rightarrow> (size_t \<times> size_t) list \<Rightarrow> 's list \<Rightarrow> 's LoRaDemod
      \<Rightarrow> ub + ('s LoRaDemod \<times> 's list \<times> (LoraDemodState \<times> 's work_out) list)" where
  "run mul [] s d = Inr (d, s, [])"
| "run mul (p # ps) s d =
     (case work mul \<lparr>inBuff = s, rawElements = fst p, decElements = snd p\<rparr> d of
        Inl e \<Rightarrow> Inl e
      | Inr (d', out) \<Rightarrow>
          (case run mul ps (drop (unat (consumed out)) s) d' of
             Inl e \<Rightarrow> Inl e
           | Inr (d'', s'', tr) \<Rightarrow> Inr (d'', s'', (state d, out) # tr)))"

text \<open>
  The frames posted along a trace, and the values detected by its calls made in
  \<^verbatim>\<open>STATE_DATASYMBOLS\<close>, both in order.
\<close>

definition frames :: "(LoraDemodState \<times> 's work_out) list \<Rightarrow> int16 option list list" where
  "frames tr = List.map_filter (\<lambda>e. posted (snd e)) tr"

definition data_value :: "LoraDemodState \<times> 's work_out \<Rightarrow> size_t option" where
  "data_value e = (if fst e = STATE_DATASYMBOLS then detected (snd e) else None)"

definition data_values :: "(LoraDemodState \<times> 's work_out) list \<Rightarrow> size_t list" where
  "data_values tr = List.map_filter data_value tr"

text \<open>
  What the constructor establishes and no member function changes: \<open>N\<close> is not zero,
  \<^verbatim>\<open>N*2\<close> does not wrap, and both chirp tables have \<open>N\<close> entries.
\<close>

definition config_ok :: "'s LoRaDemod \<Rightarrow> bool" where
  "config_ok d \<longleftrightarrow>
     N d \<noteq> 0 \<and> unat (N d) < 2 ^ 63 \<and>
     length (upChirpTable d) = unat (N d) \<and> length (downChirpTable d) = unat (N d)"

text \<open>
  The value the detector returns on the block of \<open>N\<close> samples at offset \<open>off\<close> of a
  buffer, dechirped with the current chirp table; and a pair of free debug-port elements
  that lets \<^verbatim>\<open>work()\<close> pass its two debug-port tests.
\<close>

definition block_value :: "('s \<Rightarrow> 's \<Rightarrow> 's) \<Rightarrow> 's LoRaDemod \<Rightarrow> 's list \<Rightarrow> nat \<Rightarrow> size_t" where
  "block_value mul d buf off =
     detector d (map (\<lambda>i. mul (buf ! (off + i)) (table d ! i)) [0..<unat (N d)])"

definition ports_ok :: "'s LoRaDemod \<Rightarrow> size_t \<times> size_t \<Rightarrow> bool" where
  "ports_ok d p \<longleftrightarrow> N d * 2 \<le> fst p \<and> N d * 2 \<le> snd p"

subsection \<open>Reachable demodulators and invariants\<close>

text \<open>
  The demodulators reachable from an activation by calls of \<^verbatim>\<open>work()\<close> on any ports
  that do not run into undefined behaviour, by the two setters, and by further activations.
\<close>

inductive reachable :: "('s \<Rightarrow> 's \<Rightarrow> 's) \<Rightarrow> 's LoRaDemod \<Rightarrow> bool" for mul where
  activated: "reachable mul (activate d)"
| worked: "reachable mul d \<Longrightarrow> work mul io d = Inr (d', out) \<Longrightarrow> reachable mul d'"
| sync_set: "reachable mul d \<Longrightarrow> reachable mul (setSync d s)"
| mtu_set: "reachable mul d \<Longrightarrow> reachable mul (setMTU d m)"

code_pred reachable .

text \<open>The chirp reference is the down-chirp table exactly in the two down-chirp states.\<close>

definition chirp_ok :: "'s LoRaDemod \<Rightarrow> bool" where
  "chirp_ok d \<longleftrightarrow>
     (chirpTable d = DownChirpTable) = (state d = STATE_DOWNCHIRP0 \<or> state d = STATE_DOWNCHIRP1)"

text \<open>
  The frame under assembly: \<open>h\<close> lists the values detected by the calls made in
  \<^verbatim>\<open>STATE_DATASYMBOLS\<close> since the buffer was allocated. The buffer has \<open>mtu\<close> cells from
  its allocation on, the counter is the number of values, and cell \<open>k\<close> holds the low 16
  bits of value \<open>k\<close>.
\<close>

definition assembling :: "'s LoRaDemod \<Rightarrow> size_t list \<Rightarrow> bool" where
  "assembling d h \<longleftrightarrow>
     (state d = STATE_QUARTERCHIRP \<longrightarrow> length (outSymbols d) = unat (mtu d)) \<and>
     (state d = STATE_DATASYMBOLS \<longrightarrow>
        length (outSymbols d) = unat (mtu d) \<and> unat (symCount d) = length h \<and>
        length h \<le> unat (mtu d) \<and>
        (\<forall>k<length h. outSymbols d ! k = Some (ucast (h ! k))))"

definition data_list :: "LoraDemodState \<times> 's work_out \<Rightarrow> size_t list" where
  "data_list e = (case data_value e of None \<Rightarrow> [] | Some v \<Rightarrow> [v])"

text \<open>
  Two demodulators that agree on every member but the output buffer and the symbol
  counter, and on these too once the state machine has set them for the next frame.
\<close>

definition same_but_buffer :: "'s LoRaDemod \<Rightarrow> 's LoRaDemod \<Rightarrow> bool" where
  "same_but_buffer d1 d2 \<longleftrightarrow>
     N d1 = N d2 \<and> detector d1 = detector d2 \<and> chirpTable d1 = chirpTable d2 \<and>
     upChirpTable d1 = upChirpTable d2 \<and> downChirpTable d1 = downChirpTable d2 \<and>
     sync d1 = sync d2 \<and> mtu d1 = mtu d2 \<and> state d1 = state d2 \<and>
     label_id d1 = label_id d2 \<and> prevValue d1 = prevValue d2 \<and>
     (state d1 = STATE_QUARTERCHIRP \<or> state d1 = STATE_DATASYMBOLS \<longrightarrow>
        outSymbols d1 = outSymbols d2) \<and>
     (state d1 = STATE_DATASYMBOLS \<longrightarrow> symCount d1 = symCount d2)"

text \<open>
  What a run shows on the ports: the undefined behaviour it ran into, or the input it
  left and the trace of its calls (the frames posted among them).
\<close>

definition observed ::
    "ub + ('s LoRaDemod \<times> 's list \<times> (LoraDemodState \<times> 's work_out) list)
      \<Rightarrow> ub + ('s list \<times> (LoraDemodState \<times> 's work_out) list)" where
  "observed r = map_sum id snd r"

subsection \<open>A small instance\<close>

text \<open>
  A demodulator with \<open>N = 8\<close> over samples that are natural numbers, with chirp tables
  of ones and a detector that returns the first sample fed to it, after
  \<^verbatim>\<open>setSync(0x11)\<close>, \<^verbatim>\<open>setMTU(2)\<close> and \<^verbatim>\<open>activate()\<close>, its previous value being 0. With
  sync word \<open>0x11\<close> a block whose value is 4 to 7 matches either nibble.
\<close>

definition demo :: "nat LoRaDemod" where
  "demo = \<lparr>N = 8, detector = (\<lambda>xs. case xs of [] \<Rightarrow> 0 | x # _ \<Rightarrow> of_nat x),
           chirpTable = UpChirpTable,
           upChirpTable = [1, 1, 1, 1, 1, 1, 1, 1], downChirpTable = [1, 1, 1, 1, 1, 1, 1, 1],
           sync = 0x11, mtu = 2, state = STATE_FRAMESYNC, symCount = 0, outSymbols = [],
           label_id = [], prevValue = 0\<rparr>"

text \<open>
  The ports of a call with sixteen buffered samples whose first block has value 3, and of
  one whose two blocks have the values 4 and 5 of a sync word.
\<close>

definition demo_in :: "nat work_in" where
  "demo_in = \<lparr>inBuff = [3, 0, 0, 0, 0, 0, 0, 0, 5, 0, 0, 0, 0, 0, 0, 0],
              rawElements = 16, decElements = 16\<rparr>"

definition demo_sync_in :: "nat work_in" where
  "demo_sync_in = \<lparr>inBuff = [4, 0, 0, 0, 0, 0, 0, 0, 5, 0, 0, 0, 0, 0, 0, 0],
                   rawElements = 16, decElements = 16\<rparr>"

text \<open>
  A frame for this demodulator: the two sync blocks, a block of zeros for each down-chirp,
  two samples for the quarter chirp, and two data blocks with the values 6 and 7; then
  a stream that holds the frame followed by eight more samples, and six calls with room in
  both debug ports.
\<close>

definition demo_b0 :: "nat list" where
  "demo_b0 = [4, 0, 0, 0, 0, 0, 0, 0]"

definition demo_b1 :: "nat list" where
  "demo_b1 = [5, 0, 0, 0, 0, 0, 0, 0]"

definition demo_quiet :: "nat list" where
  "demo_quiet = [0, 0, 0, 0, 0, 0, 0, 0]"

definition demo_q :: "nat list" where
  "demo_q = [0, 0]"

definition demo_blocks :: "nat list list" where
  "demo_blocks = [6, 0, 0, 0, 0, 0, 0, 0] # [7, 0, 0, 0, 0, 0, 0, 0] # []"

definition demo_stream :: "nat list" where
  "demo_stream =
     demo_b0 @ demo_b1 @ demo_quiet @ demo_quiet @ demo_q @ concat demo_blocks @ demo_quiet"

definition demo_ports :: "(size_t \<times> size_t) list" where
  "demo_ports = [(16, 16), (16, 16), (16, 16), (16, 16), (16, 16), (16, 16)]"

text \<open>
  The outline of a run: the states its calls were made in, the state it ends in, and the
  frames it posted.
\<close>

definition outline ::
    "ub + ('s LoRaDemod \<times> 's list \<times> (LoraDemodState \<times> 's work_out) list)
      \<Rightarrow> ub + (LoraDemodState list \<times> LoraDemodState \<times> int16 option list list)" where
  "outline r = map_sum id (\<lambda>(d, s, tr). (map fst tr, state d, frames tr)) r"

text \<open>
  The same demodulator after \<^verbatim>\<open>setSync(0x00)\<close>, and a stream for it: a preamble block of
  value 0, two sync blocks of values 1 and 2 (both match the nibble 0), the two down-chirp
  blocks, the quarter chirp, the data blocks of values 6 and 7, and eight more samples.
\<close>

definition demo_sync0 :: "nat LoRaDemod" where
  "demo_sync0 = setSync demo 0x00"

definition demo_c0 :: "nat list" where
  "demo_c0 = [1, 0, 0, 0, 0, 0, 0, 0]"

definition demo_c1 :: "nat list" where
  "demo_c1 = [2, 0, 0, 0, 0, 0, 0, 0]"

definition demo_stream0 :: "nat list" where
  "demo_stream0 =
     demo_quiet @ demo_c0 @ demo_c1 @ demo_quiet @ demo_quiet @ demo_q @ concat demo_blocks
     @ demo_quiet"

section \<open>Properties\<close>

subsection \<open>Auxiliary facts\<close>

lemma unat_N2: "config_ok d \<Longrightarrow> unat (N d * 2) = 2 * unat (N d)"
  by (simp add: config_ok_def unat_word_ariths)

lemma length_table: "config_ok d \<Longrightarrow> length (table d) = unat (N d)"
  by (simp add: config_ok_def table_def split: chirp_ref.split)

lemma unat_succ:
  fixes c m :: size_t
  assumes "unat c < unat m"
  shows "unat (c + 1) = Suc (unat c)"
proof -
  have "unat m < 2 ^ 64"
    using unsigned_less [of m, where 'a = nat] by simp
  then have "unat c + 1 < 2 ^ 64"
    using assms by simp
  then show ?thesis
    by (simp add: unat_word_ariths)
qed

lemma take_Suc_update:
  "k < length xs \<Longrightarrow> take (Suc k) (xs[k := a]) = take k xs @ [a]"
  by (simp add: take_Suc_conv_app_nth)

lemma drop_window:
  assumes "m \<le> length ys"
  shows "drop (length (xs @ ys) - m) (xs @ ys) = drop (length ys - m) ys"
  using assms by simp

text \<open>
  \<^verbatim>\<open>(_prevValue+1)/2 == 0\<close> holds for the previous values -2, -1 and 0; and a detected
  value below \<open>2^15\<close> is the value of the \<^verbatim>\<open>int16_t\<close> it is stored as.
\<close>

lemma syncd_values: "framesync_syncd p \<longleftrightarrow> sint p \<in> {-2, -1, 0}"
  by (auto simp: framesync_syncd_def c_div_def split: if_splits)

lemma int16_of_value:
  fixes v :: size_t
  assumes "unat v < 2 ^ 15"
  shows "sint (ucast v :: int16) = int (unat v)"
proof -
  have iv: "uint v = int (unat v)"
    by (rule uint_nat)
  have "int (unat v) < int (2 ^ 15)"
    using assms by (simp only: of_nat_less_iff)
  then have lt: "uint v < 2 ^ 15"
    by (simp only: iv) simp
  have "uint (ucast v :: int16) = take_bit 16 (uint v)"
    by (simp add: unsigned_ucast_eq)
  also have "\<dots> = uint v"
    using lt by (simp add: take_bit_int_eq_self)
  finally have u: "uint (ucast v :: int16) = uint v" .
  have "sint (ucast v :: int16) = signed_take_bit 15 (uint (ucast v :: int16))"
    by (simp add: sint_uint)
  also have "\<dots> = signed_take_bit 15 (uint v)"
    by (simp only: u)
  also have "\<dots> = uint v"
  proof (rule signed_take_bit_int_eq_self)
    have "(0::int) \<le> uint v" by simp
    moreover have "- (2 ^ 15) \<le> (0::int)" by simp
    ultimately show "- (2 ^ 15) \<le> uint v" by (rule order_trans [rotated])
    show "uint v < 2 ^ 15" by (rule lt)
  qed
  finally show ?thesis
    by (simp only: iv)
qed

lemma c_div_sdiv: "c_div a b = a sdiv b"
  by (auto simp: c_div_def signed_divide_int_def sgn_if)

text \<open>
  A detected value below \<open>2^15\<close> that passes \<^verbatim>\<open>(_prevValue+1)/2 == 0\<close> once it is stored
  in \<^verbatim>\<open>_prevValue\<close> is 0.
\<close>

lemma near_zero_value:
  fixes v :: size_t
  assumes "framesync_syncd (ucast v)" "unat v < 2 ^ 15"
  shows "v = 0"
proof -
  have "sint (ucast v :: int16) \<in> {-2, -1, 0}"
    using assms(1) by (simp only: syncd_values)
  then have "int (unat v) \<in> {-2, -1, 0}"
    by (simp only: int16_of_value [OF assms(2)])
  then have "unat v = 0" by (elim insertE emptyE) linarith+
  then show ?thesis by (simp add: unat_eq_0)
qed

lemma dechirp_ok:
  "length tab = n \<Longrightarrow> off + n \<le> length buf \<Longrightarrow>
   dechirp mul tab buf off n = Inr (map (\<lambda>i. mul (buf ! (off + i)) (tab ! i)) [0..<n])"
  by (simp add: dechirp_def)

lemma dechirp_block:
  assumes "length tab = n" "length blk = n" "length pre = off"
  shows "map (\<lambda>i. mul ((pre @ blk @ post) ! (off + i)) (tab ! i)) [0..<n] = map2 mul blk tab"
  using assms by (intro nth_equalityI) (simp_all add: nth_append)

lemma block_value_at:
  assumes "config_ok d" "length blk = unat (N d)"
  shows "block_value mul d (pre @ blk @ post) (length pre) = detector d (map2 mul blk (table d))"
  using dechirp_block [of "table d" "unat (N d)" blk pre "length pre" mul post] assms
  by (simp add: block_value_def length_table)

lemma block_value_head:
  assumes "config_ok d" "length blk = unat (N d)"
  shows "block_value mul d (blk @ post) 0 = detector d (map2 mul blk (table d))"
  using block_value_at [OF assms, of mul "[]" post] by simp

lemma frames_Cons:
  "frames (e # tr) = (case posted (snd e) of None \<Rightarrow> frames tr | Some f \<Rightarrow> f # frames tr)"
  by (simp add: frames_def split: option.split)

lemma frames_Nil: "frames [] = []"
  by (simp add: frames_def)

lemma frames_append: "frames (tr1 @ tr2) = frames tr1 @ frames tr2"
  by (simp add: frames_def map_filter_def)

lemma data_values_Cons: "data_values (e # tr) = data_list e @ data_values tr"
  by (simp add: data_values_def data_list_def split: option.split)

lemma data_values_Nil: "data_values [] = []"
  by (simp add: data_values_def)

subsection \<open>One call, state by state\<close>

text \<open>Past the three early returns, \<^verbatim>\<open>work()\<close> is the switch on the first block's value.\<close>

lemma work_processing:
  assumes "config_ok d" "2 * unat (N d) \<le> length (inBuff io)"
    "ports_ok d (rawElements io, decElements io)"
  shows "work mul io d =
           work_switch mul io d (block_value mul d (inBuff io) 0)
             (map (\<lambda>i. mul (inBuff io ! i) (table d ! i)) [0..<unat (N d)])"
  using assms
  by (simp add: work_def unat_N2 ports_ok_def not_less [symmetric] dechirp_ok length_table
      block_value_def)

lemma work_cases:
  assumes "work mul io d = Inr (d1, out)"
  obtains (idle) "d1 = d" "detected out = None" "posted out = None"
  | (processing) v decd where "work_switch mul io d v decd = Inr (d1, out)"
  using assms
  by (auto simp: work_def early_return_def split: if_splits sum.splits)

lemma work_switch_framesync:
  assumes "config_ok d" "state d = STATE_FRAMESYNC" "2 * unat (N d) \<le> length (inBuff io)"
  shows "work_switch mul io d v decd =
    (if framesync_syncd (prevValue d) \<and> framesync_match0 v (sync d) then
       (if sync_word1 (block_value mul d (inBuff io) (unat (N d))) (sync d) then
          Inr (work_end (d\<lparr>state := STATE_DOWNCHIRP0, chirpTable := DownChirpTable,
                           label_id := ''SYNC''\<rparr>)
                 (2 * N d) v (take (unat (N d) + unat (N d)) (inBuff io))
                 (decd @ map (\<lambda>i. mul (inBuff io ! (unat (N d) + i)) (table d ! i))
                           [0..<unat (N d)]) None)
        else
          Inr (work_end (d\<lparr>label_id := ''X''\<rparr>) (N d - v) v
                 (take (unat (N d) + unat (N d)) (inBuff io))
                 (decd @ map (\<lambda>i. mul (inBuff io ! (unat (N d) + i)) (table d ! i))
                           [0..<unat (N d)]) None))
     else Inr (work_end (d\<lparr>label_id := ''X''\<rparr>) (N d - v) v
                 (take (unat (N d)) (inBuff io)) decd None))"
  using assms
  by (simp add: work_switch_def framesync_match1_def dechirp_ok length_table block_value_def
      Let_def)

lemma step_sync:
  assumes "config_ok d" "state d = STATE_FRAMESYNC" "2 * unat (N d) \<le> length s" "ports_ok d p"
    and "framesync_syncd (prevValue d)"
    and "framesync_match0 (block_value mul d s 0) (sync d)"
    and "sync_word1 (block_value mul d s (unat (N d))) (sync d)"
  shows "\<exists>out. work mul \<lparr>inBuff = s, rawElements = fst p, decElements = snd p\<rparr> d =
           Inr (d\<lparr>state := STATE_DOWNCHIRP0, chirpTable := DownChirpTable, label_id := ''SYNC'',
                  prevValue := ucast (block_value mul d s 0)\<rparr>, out)
         \<and> consumed out = 2 * N d \<and> posted out = None"
  using assms by (simp add: work_processing work_switch_framesync work_end_def)

lemma step_search:
  assumes "config_ok d" "state d = STATE_FRAMESYNC" "2 * unat (N d) \<le> length s" "ports_ok d p"
    and "\<not> (framesync_syncd (prevValue d)
            \<and> framesync_match0 (block_value mul d s 0) (sync d)
            \<and> sync_word1 (block_value mul d s (unat (N d))) (sync d))"
  shows "\<exists>out. work mul \<lparr>inBuff = s, rawElements = fst p, decElements = snd p\<rparr> d =
           Inr (d\<lparr>label_id := ''X'', prevValue := ucast (block_value mul d s 0)\<rparr>, out)
         \<and> consumed out = N d - block_value mul d s 0 \<and> posted out = None"
  using assms by (auto simp: work_processing work_switch_framesync work_end_def)

lemma step_downchirp0:
  assumes "config_ok d" "state d = STATE_DOWNCHIRP0" "2 * unat (N d) \<le> length s" "ports_ok d p"
  shows "\<exists>out. work mul \<lparr>inBuff = s, rawElements = fst p, decElements = snd p\<rparr> d =
           Inr (d\<lparr>state := STATE_DOWNCHIRP1, label_id := ''DC'',
                  prevValue := ucast (block_value mul d s 0)\<rparr>, out)
         \<and> consumed out = N d \<and> posted out = None"
  using assms by (simp add: work_processing work_switch_def work_end_def)

lemma step_downchirp1:
  assumes "config_ok d" "state d = STATE_DOWNCHIRP1" "2 * unat (N d) \<le> length s" "ports_ok d p"
  shows "\<exists>out. work mul \<lparr>inBuff = s, rawElements = fst p, decElements = snd p\<rparr> d =
           Inr (d\<lparr>state := STATE_QUARTERCHIRP, chirpTable := UpChirpTable, label_id := [],
                  outSymbols := replicate (unat (mtu d)) None,
                  prevValue := ucast (block_value mul d s 0)\<rparr>, out)
         \<and> consumed out = N d \<and> posted out = None"
  using assms by (simp add: work_processing work_switch_def work_end_def)

lemma step_quarterchirp:
  assumes "config_ok d" "state d = STATE_QUARTERCHIRP" "2 * unat (N d) \<le> length s" "ports_ok d p"
  shows "\<exists>out. work mul \<lparr>inBuff = s, rawElements = fst p, decElements = snd p\<rparr> d =
           Inr (d\<lparr>state := STATE_DATASYMBOLS, symCount := 0, label_id := ''QC'',
                  prevValue := ucast (block_value mul d s 0)\<rparr>, out)
         \<and> consumed out = N d div 4 \<and> posted out = None"
  using assms by (simp add: work_processing work_switch_def work_end_def)

lemma step_datasymbols:
  assumes "config_ok d" "state d = STATE_DATASYMBOLS" "2 * unat (N d) \<le> length s" "ports_ok d p"
    and "unat (symCount d) < length (outSymbols d)"
  shows "\<exists>out. work mul \<lparr>inBuff = s, rawElements = fst p, decElements = snd p\<rparr> d =
           Inr (d\<lparr>outSymbols :=
                    (outSymbols d)[unat (symCount d) := Some (ucast (block_value mul d s 0))],
                  symCount := symCount d + 1,
                  state := (if mtu d \<le> symCount d + 1 then STATE_FRAMESYNC
                            else STATE_DATASYMBOLS),
                  label_id := ''S'',
                  prevValue := ucast (block_value mul d s 0)\<rparr>, out)
         \<and> consumed out = N d
         \<and> posted out = (if mtu d \<le> symCount d + 1
              then Some ((outSymbols d)[unat (symCount d) := Some (ucast (block_value mul d s 0))])
              else None)"
  using assms by (simp add: work_processing work_switch_def work_end_def Let_def)

lemma work_switch_other:
  assumes "work_switch mul io d v decd = Inr (d1, out)" "state d \<noteq> STATE_DATASYMBOLS"
  shows "mtu d1 = mtu d \<and> posted out = None \<and> state d1 \<noteq> STATE_DATASYMBOLS \<or>
         mtu d1 = mtu d \<and> posted out = None \<and> state d = STATE_QUARTERCHIRP
           \<and> state d1 = STATE_DATASYMBOLS \<and> symCount d1 = 0 \<and> outSymbols d1 = outSymbols d"
    and "state d1 = STATE_QUARTERCHIRP \<longrightarrow> length (outSymbols d1) = unat (mtu d1)"
  using assms
  by (auto simp: work_switch_def framesync_match1_def work_end_def Let_def
      split: if_splits sum.splits LoraDemodState.splits prod.splits)

lemma work_switch_data:
  assumes "work_switch mul io d v decd = Inr (d1, out)" "state d = STATE_DATASYMBOLS"
  shows "unat (symCount d) < length (outSymbols d) \<and> mtu d1 = mtu d \<and> detected out = Some v
         \<and> outSymbols d1 = (outSymbols d)[unat (symCount d) := Some (ucast v)]
         \<and> symCount d1 = symCount d + 1
         \<and> (if mtu d \<le> symCount d + 1
            then state d1 = STATE_FRAMESYNC \<and> posted out = Some (outSymbols d1)
            else state d1 = STATE_DATASYMBOLS \<and> posted out = None)"
  using assms
  by (auto simp: work_switch_def work_end_def Let_def split: if_splits)

lemma work_chirp_ok:
  assumes "chirp_ok d" "work mul io d = Inr (d', out)"
  shows "chirp_ok d'"
  using assms
  by (auto simp: work_def work_switch_def framesync_match1_def work_end_def chirp_ok_def Let_def
      split: if_splits sum.splits LoraDemodState.splits prod.splits)

subsection \<open>Runs\<close>

lemma run_step:
  assumes "work mul \<lparr>inBuff = s, rawElements = fst p, decElements = snd p\<rparr> d = Inr (d1, out)"
    and "run mul ps (drop (unat (consumed out)) s) d1 = Inr (d2, s2, tr)"
  shows "run mul (p # ps) s d = Inr (d2, s2, (state d, out) # tr)"
  using assms by simp

lemma run_append:
  assumes "run mul ps s d = Inr (d1, s1, tr1)" "run mul qs s1 d1 = Inr (d2, s2, tr2)"
  shows "run mul (ps @ qs) s d = Inr (d2, s2, tr1 @ tr2)"
  using assms
  by (induction ps arbitrary: s d tr1) (auto split: sum.splits)

text \<open>
  The four calls from a matching sync word to the first data symbol: they consume the two
  sync blocks, the two down-chirp blocks and the quarter chirp, and leave a fresh buffer
  of \<open>mtu\<close> cells and a counter of zero.
\<close>

lemma preamble_steps:
  assumes cfg: "config_ok d" and st: "state d = STATE_FRAMESYNC"
    and up: "chirpTable d = UpChirpTable"
    and sy: "framesync_syncd (prevValue d)"
    and m0: "framesync_match0 (detector d (map2 mul b0 (upChirpTable d))) (sync d)"
    and m1: "sync_word1 (detector d (map2 mul b1 (upChirpTable d))) (sync d)"
    and l0: "length b0 = unat (N d)" and l1: "length b1 = unat (N d)"
    and l2: "length dc0 = unat (N d)" and l3: "length dc1 = unat (N d)"
    and lq: "length q = unat (N d) div 4"
    and lrst: "2 * unat (N d) \<le> length q + length rst"
    and ports: "ports_ok d p1" "ports_ok d p2" "ports_ok d p3" "ports_ok d p4"
  shows "\<exists>d4 tr. run mul [p1, p2, p3, p4] (b0 @ b1 @ dc0 @ dc1 @ q @ rst) d = Inr (d4, rst, tr)
           \<and> map fst tr = [STATE_FRAMESYNC, STATE_DOWNCHIRP0, STATE_DOWNCHIRP1, STATE_QUARTERCHIRP]
           \<and> frames tr = []
           \<and> state d4 = STATE_DATASYMBOLS \<and> chirpTable d4 = UpChirpTable
           \<and> symCount d4 = 0 \<and> outSymbols d4 = replicate (unat (mtu d)) None
           \<and> N d4 = N d \<and> detector d4 = detector d \<and> mtu d4 = mtu d \<and> sync d4 = sync d
           \<and> upChirpTable d4 = upChirpTable d \<and> downChirpTable d4 = downChirpTable d"
proof -
  let ?n = "unat (N d)"
  let ?s0 = "b0 @ b1 @ dc0 @ dc1 @ q @ rst"
  let ?s1 = "dc0 @ dc1 @ q @ rst"
  let ?s2 = "dc1 @ q @ rst"
  let ?s3 = "q @ rst"
  have two: "unat (2 * N d) = 2 * ?n"
    using unat_N2 [OF cfg] by (simp add: mult.commute)
  have quarter: "unat (N d div 4) = ?n div 4"
    by (simp add: unat_div)
  \<comment> \<open>the sync call\<close>
  have v0: "block_value mul d ?s0 0 = detector d (map2 mul b0 (upChirpTable d))"
    using block_value_head [OF cfg l0, of mul] up by (simp add: table_def)
  have v1: "block_value mul d ?s0 ?n = detector d (map2 mul b1 (upChirpTable d))"
    using block_value_at [OF cfg l1, of mul b0 "dc0 @ dc1 @ q @ rst"] up l0
    by (simp add: table_def)
  have len0: "2 * ?n \<le> length ?s0" using l0 l1 by simp
  let ?d1 = "d\<lparr>state := STATE_DOWNCHIRP0, chirpTable := DownChirpTable, label_id := ''SYNC'',
                prevValue := ucast (block_value mul d ?s0 0)\<rparr>"
  from step_sync [OF cfg st len0 ports(1) sy, of mul] m0 m1 v0 v1
  obtain o1 where w1: "work mul \<lparr>inBuff = ?s0, rawElements = fst p1, decElements = snd p1\<rparr> d
                         = Inr (?d1, o1)"
    and c1: "consumed o1 = 2 * N d" and po1: "posted o1 = None"
    by auto
  have dr1: "drop (unat (consumed o1)) ?s0 = ?s1"
    using l0 l1 by (simp add: c1 two)
  \<comment> \<open>the first down-chirp call\<close>
  have cfg1: "config_ok ?d1" "state ?d1 = STATE_DOWNCHIRP0" "ports_ok ?d1 p2"
    using cfg ports by (simp_all add: config_ok_def ports_ok_def)
  have len1: "2 * unat (N ?d1) \<le> length ?s1" using l2 l3 by simp
  let ?d2 = "?d1\<lparr>state := STATE_DOWNCHIRP1, label_id := ''DC'',
                  prevValue := ucast (block_value mul ?d1 ?s1 0)\<rparr>"
  from step_downchirp0 [OF cfg1(1,2) len1 cfg1(3), of mul]
  obtain o2 where w2: "work mul \<lparr>inBuff = ?s1, rawElements = fst p2, decElements = snd p2\<rparr> ?d1
                         = Inr (?d2, o2)"
    and c2: "consumed o2 = N d" and po2: "posted o2 = None"
    by auto
  have dr2: "drop (unat (consumed o2)) ?s1 = ?s2"
    using l2 by (simp add: c2)
  \<comment> \<open>the second down-chirp call\<close>
  have cfg2: "config_ok ?d2" "state ?d2 = STATE_DOWNCHIRP1" "ports_ok ?d2 p3"
    using cfg ports by (simp_all add: config_ok_def ports_ok_def)
  have len2: "2 * unat (N ?d2) \<le> length ?s2" using l3 lrst by simp
  let ?d3 = "?d2\<lparr>state := STATE_QUARTERCHIRP, chirpTable := UpChirpTable, label_id := [],
                  outSymbols := replicate (unat (mtu ?d2)) None,
                  prevValue := ucast (block_value mul ?d2 ?s2 0)\<rparr>"
  from step_downchirp1 [OF cfg2(1,2) len2 cfg2(3), of mul]
  obtain o3 where w3: "work mul \<lparr>inBuff = ?s2, rawElements = fst p3, decElements = snd p3\<rparr> ?d2
                         = Inr (?d3, o3)"
    and c3: "consumed o3 = N d" and po3: "posted o3 = None"
    by auto
  have dr3: "drop (unat (consumed o3)) ?s2 = ?s3"
    using l3 by (simp add: c3)
  \<comment> \<open>the quarter-chirp call\<close>
  have cfg3: "config_ok ?d3" "state ?d3 = STATE_QUARTERCHIRP" "ports_ok ?d3 p4"
    using cfg ports by (simp_all add: config_ok_def ports_ok_def)
  have len3: "2 * unat (N ?d3) \<le> length ?s3" using lrst by simp
  let ?d4 = "?d3\<lparr>state := STATE_DATASYMBOLS, symCount := 0, label_id := ''QC'',
                  prevValue := ucast (block_value mul ?d3 ?s3 0)\<rparr>"
  from step_quarterchirp [OF cfg3(1,2) len3 cfg3(3), of mul]
  obtain o4 where w4: "work mul \<lparr>inBuff = ?s3, rawElements = fst p4, decElements = snd p4\<rparr> ?d3
                         = Inr (?d4, o4)"
    and c4: "consumed o4 = N d div 4" and po4: "posted o4 = None"
    by auto
  have dr4: "drop (unat (consumed o4)) ?s3 = rst"
    using lq by (simp add: c4 quarter)
  have r4: "run mul [p4] ?s3 ?d3 = Inr (?d4, rst, [(state ?d3, o4)])"
    by (rule run_step [OF w4]) (simp only: dr4 run.simps)
  have r3: "run mul [p3, p4] ?s2 ?d2 = Inr (?d4, rst, [(state ?d2, o3), (state ?d3, o4)])"
    by (rule run_step [OF w3]) (simp only: dr3 r4)
  have r2: "run mul [p2, p3, p4] ?s1 ?d1
              = Inr (?d4, rst, [(state ?d1, o2), (state ?d2, o3), (state ?d3, o4)])"
    by (rule run_step [OF w2]) (simp only: dr2 r3)
  have r1: "run mul [p1, p2, p3, p4] ?s0 d
              = Inr (?d4, rst, [(state d, o1), (state ?d1, o2), (state ?d2, o3), (state ?d3, o4)])"
    by (rule run_step [OF w1]) (simp only: dr1 r2)
  show ?thesis
  proof (intro exI conjI)
    show "run mul [p1, p2, p3, p4] ?s0 d
            = Inr (?d4, rst, [(state d, o1), (state ?d1, o2), (state ?d2, o3), (state ?d3, o4)])"
      by (rule r1)
  qed (simp_all add: st frames_Cons frames_Nil po1 po2 po3 po4)
qed

text \<open>
  The calls in \<^verbatim>\<open>STATE_DATASYMBOLS\<close> over the data blocks that complete the buffer: each
  consumes its block and writes its value at the counter; the last one posts the buffer.
\<close>

lemma data_loop:
  assumes "blocks \<noteq> []"
    and "config_ok d" "state d = STATE_DATASYMBOLS" "chirpTable d = UpChirpTable"
    and "length (outSymbols d) = unat (symCount d) + length blocks"
    and "unat (mtu d) = unat (symCount d) + length blocks"
    and "\<forall>b\<in>set blocks. length b = unat (N d)"
    and "unat (N d) \<le> length rest"
    and "length ps = length blocks" "\<forall>p\<in>set ps. ports_ok d p"
  shows "\<exists>d' tr. run mul ps (concat blocks @ rest) d = Inr (d', rest, tr)
           \<and> state d' = STATE_FRAMESYNC \<and> chirpTable d' = UpChirpTable
           \<and> map fst tr = replicate (length blocks) STATE_DATASYMBOLS
           \<and> frames tr = [take (unat (symCount d)) (outSymbols d)
                @ map (\<lambda>b. Some (ucast (detector d (map2 mul b (upChirpTable d))))) blocks]"
  using assms
proof (induction blocks arbitrary: d ps rule: list_nonempty_induct)
  case (single b)
  then obtain p where ps: "ps = [p]" and pok: "ports_ok d p"
    by (cases ps) auto
  let ?k = "unat (symCount d)"
  let ?v = "block_value mul d (b @ rest) 0"
  have lb: "length b = unat (N d)" using single by simp
  have len: "2 * unat (N d) \<le> length (b @ rest)" using single lb by simp
  have k: "?k < length (outSymbols d)" using single by simp
  have cnt: "unat (symCount d + 1) = Suc ?k"
    using single by (intro unat_succ [of _ "mtu d"]) simp
  have full: "mtu d \<le> symCount d + 1"
    using single cnt by (simp add: word_le_nat_alt)
  have v: "?v = detector d (map2 mul b (upChirpTable d))"
    using block_value_head [OF single(1) lb, of mul rest] single(3) by (simp add: table_def)
  have upd: "(outSymbols d)[?k := a] = take ?k (outSymbols d) @ [a]" for a
    using take_Suc_update [of ?k "outSymbols d" a] single by simp
  from step_datasymbols [OF single(1,2) len pok k, of mul]
  obtain out where
    w: "work mul \<lparr>inBuff = b @ rest, rawElements = fst p, decElements = snd p\<rparr> d =
           Inr (d\<lparr>outSymbols := (outSymbols d)[?k := Some (ucast ?v)],
                  symCount := symCount d + 1,
                  state := STATE_FRAMESYNC, label_id := ''S'', prevValue := ucast ?v\<rparr>, out)"
    and c: "consumed out = N d"
    and po: "posted out = Some ((outSymbols d)[?k := Some (ucast ?v)])"
    using full by auto
  have "run mul [p] (b @ rest) d =
          Inr (d\<lparr>outSymbols := (outSymbols d)[?k := Some (ucast ?v)],
                 symCount := symCount d + 1,
                 state := STATE_FRAMESYNC, label_id := ''S'', prevValue := ucast ?v\<rparr>, rest,
               [(state d, out)])"
    by (rule run_step [OF w]) (simp add: c lb)
  then show ?case
    using single(2,3) by (simp add: ps frames_Cons frames_Nil po upd v)
next
  case (cons b bs)
  then obtain p ps' where ps: "ps = p # ps'" and pok: "ports_ok d p"
    and ps': "length ps' = length bs" "\<forall>p\<in>set ps'. ports_ok d p"
    by (cases ps) auto
  let ?k = "unat (symCount d)"
  let ?s = "b @ concat bs @ rest"
  let ?v = "block_value mul d ?s 0"
  let ?d1 = "d\<lparr>outSymbols := (outSymbols d)[?k := Some (ucast ?v)],
                symCount := symCount d + 1,
                state := STATE_DATASYMBOLS, label_id := ''S'', prevValue := ucast ?v\<rparr>"
  have lb: "length b = unat (N d)" using cons.prems by simp
  obtain b' bs' where bs: "bs = b' # bs'" using cons.hyps by (cases bs) auto
  have lb': "length b' = unat (N d)" using cons.prems bs by simp
  have len: "2 * unat (N d) \<le> length ?s" using lb lb' bs by simp
  have k: "?k < length (outSymbols d)" using cons.prems by simp
  have cnt: "unat (symCount d + 1) = Suc ?k"
    using cons.prems by (intro unat_succ [of _ "mtu d"]) simp
  have nfull: "\<not> mtu d \<le> symCount d + 1"
    using cons.prems cnt bs by (simp add: word_le_nat_alt)
  have v: "?v = detector d (map2 mul b (upChirpTable d))"
    using block_value_head [OF cons.prems(1) lb, of mul "concat bs @ rest"] cons.prems(3)
    by (simp add: table_def)
  from step_datasymbols [OF cons.prems(1,2) len pok k, of mul]
  obtain out where
    w: "work mul \<lparr>inBuff = ?s, rawElements = fst p, decElements = snd p\<rparr> d = Inr (?d1, out)"
    and c: "consumed out = N d" and po: "posted out = None"
    using nfull by auto
  have d1: "config_ok ?d1" "state ?d1 = STATE_DATASYMBOLS" "chirpTable ?d1 = UpChirpTable"
    "length (outSymbols ?d1) = unat (symCount ?d1) + length bs"
    "unat (mtu ?d1) = unat (symCount ?d1) + length bs"
    "\<forall>b\<in>set bs. length b = unat (N ?d1)" "unat (N ?d1) \<le> length rest"
    "\<forall>p\<in>set ps'. ports_ok ?d1 p"
    using cons.prems ps' cnt by (simp_all add: config_ok_def ports_ok_def)
  from cons.IH [OF d1(1-7) ps'(1) d1(8)]
  obtain d' tr where r: "run mul ps' (concat bs @ rest) ?d1 = Inr (d', rest, tr)"
    and st: "state d' = STATE_FRAMESYNC" "chirpTable d' = UpChirpTable"
    and tr: "map fst tr = replicate (length bs) STATE_DATASYMBOLS"
    and fr: "frames tr = [take (unat (symCount ?d1)) (outSymbols ?d1)
                @ map (\<lambda>b. Some (ucast (detector ?d1 (map2 mul b (upChirpTable ?d1))))) bs]"
    by blast
  have "run mul (p # ps') ?s d = Inr (d', rest, (state d, out) # tr)"
    by (rule run_step [OF w]) (simp add: c lb r)
  then show ?case
    using st tr fr cons.prems(2) k
    by (simp add: ps frames_Cons po cnt take_Suc_update v)
qed

text \<open>
  One call keeps the frame under assembly: its history grows by the value of a call made
  in \<^verbatim>\<open>STATE_DATASYMBOLS\<close> or starts anew, and a frame it posts is the whole history,
  \<open>mtu\<close> values long.
\<close>

lemma work_assembling:
  assumes a: "assembling d h" and w: "work mul io d = Inr (d1, out)"
  shows "mtu d1 = mtu d \<and>
         (\<exists>h1. assembling d1 h1 \<and> (h1 = h @ data_list (state d, out) \<or> h1 = []) \<and>
            (\<forall>f. posted out = Some f \<longrightarrow>
               length (h @ data_list (state d, out)) = unat (mtu d)
               \<and> f = map (\<lambda>v. Some (ucast v)) (h @ data_list (state d, out))))"
  using w
proof (cases rule: work_cases)
  case idle
  then show ?thesis
    using a by (auto simp: data_list_def data_value_def)
next
  case (processing v decd)
  show ?thesis
  proof (cases "state d = STATE_DATASYMBOLS")
    case False
    from work_switch_other [OF processing False] a
    have "mtu d1 = mtu d" "posted out = None" "assembling d1 []"
      by (auto simp: assembling_def)
    then show ?thesis by auto
  next
    case True
    let ?k = "unat (symCount d)"
    from work_switch_data [OF processing True]
    have k: "?k < length (outSymbols d)" and m: "mtu d1 = mtu d" and dv: "detected out = Some v"
      and o: "outSymbols d1 = (outSymbols d)[?k := Some (ucast v)]"
      and c: "symCount d1 = symCount d + 1"
      and p: "if mtu d \<le> symCount d + 1
            then state d1 = STATE_FRAMESYNC \<and> posted out = Some (outSymbols d1)
            else state d1 = STATE_DATASYMBOLS \<and> posted out = None"
      by simp_all
    from a True have len: "length (outSymbols d) = unat (mtu d)" and kh: "?k = length h"
      and cells: "\<forall>j<length h. outSymbols d ! j = Some (ucast (h ! j))"
      by (simp_all add: assembling_def)
    have dl: "data_list (state d, out) = [v]"
      using True dv by (simp add: data_list_def data_value_def)
    have cnt: "unat (symCount d + 1) = Suc (length h)"
      using unat_succ [of "symCount d" "mtu d"] k len kh by simp
    have cells1: "\<forall>j<Suc (length h). outSymbols d1 ! j = Some (ucast ((h @ [v]) ! j))"
      using cells k kh by (auto simp: o nth_append nth_list_update less_Suc_eq)
    show ?thesis
    proof (cases "mtu d \<le> symCount d + 1")
      case full: True
      then have eq: "Suc (length h) = unat (mtu d)"
        using cnt k len kh by (simp add: word_le_nat_alt)
      have "outSymbols d1 = map (\<lambda>v. Some (ucast v)) (h @ [v])"
      proof (rule nth_equalityI)
        show "length (outSymbols d1) = length (map (\<lambda>v. Some (ucast v)) (h @ [v]))"
          using eq len by (simp add: o)
      next
        fix j assume "j < length (outSymbols d1)"
        then have "j < Suc (length h)"
          using eq len by (simp add: o)
        then show "outSymbols d1 ! j = map (\<lambda>v. Some (ucast v)) (h @ [v]) ! j"
          using cells1 by (simp del: map_append)
      qed
      moreover have "assembling d1 []"
        using p full by (simp add: assembling_def)
      ultimately show ?thesis
        using p full m eq by (auto simp: dl)
    next
      case nfull: False
      then have lt: "Suc (length h) < unat (mtu d)"
        using cnt k len kh by (simp add: word_le_nat_alt)
      have "assembling d1 (h @ [v])"
        using p nfull lt cells1 len m by (simp add: assembling_def o c cnt)
      then show ?thesis
        using p nfull m by (auto simp: dl)
    qed
  qed
qed

lemma posted_frame_values:
  assumes "assembling d h" "run mul ps s d = Inr (d', s', tr)" "i < length tr"
    and "posted (snd (tr ! i)) = Some f"
  shows "unat (mtu d) \<le> length (h @ data_values (take (Suc i) tr))
       \<and> f = map (\<lambda>v. Some (ucast v))
               (drop (length (h @ data_values (take (Suc i) tr)) - unat (mtu d))
                  (h @ data_values (take (Suc i) tr)))"
  using assms
proof (induction ps arbitrary: d h s tr i)
  case Nil
  then show ?case by simp
next
  case (Cons p ps)
  from Cons.prems(2) obtain d1 out tr1 where
    w: "work mul \<lparr>inBuff = s, rawElements = fst p, decElements = snd p\<rparr> d = Inr (d1, out)"
    and r: "run mul ps (drop (unat (consumed out)) s) d1 = Inr (d', s', tr1)"
    and tr: "tr = (state d, out) # tr1"
    by (auto split: sum.splits)
  let ?e = "(state d, out)"
  from work_assembling [OF Cons.prems(1) w]
  obtain h1 where m: "mtu d1 = mtu d" and a1: "assembling d1 h1"
    and h1: "h1 = h @ data_list ?e \<or> h1 = []"
    and po: "\<And>f. posted out = Some f \<Longrightarrow>
               length (h @ data_list ?e) = unat (mtu d)
               \<and> f = map (\<lambda>v. Some (ucast v)) (h @ data_list ?e)"
    by blast
  show ?case
  proof (cases i)
    case 0
    then have "posted out = Some f" using Cons.prems(4) tr by simp
    from po [OF this] show ?thesis
      using 0 tr by (simp add: data_values_Cons data_values_Nil)
  next
    case (Suc j)
    then have j: "j < length tr1" "posted (snd (tr1 ! j)) = Some f"
      using Cons.prems(3,4) tr by simp_all
    let ?vs = "data_values (take (Suc j) tr1)"
    from Cons.IH [OF a1 r j]
    have ih: "unat (mtu d) \<le> length (h1 @ ?vs)"
      "f = map (\<lambda>v. Some (ucast v)) (drop (length (h1 @ ?vs) - unat (mtu d)) (h1 @ ?vs))"
      by (simp_all add: m)
    have tk: "data_values (take (Suc i) tr) = data_list ?e @ ?vs"
      using Suc tr by (simp add: data_values_Cons)
    from h1 show ?thesis
    proof
      assume "h1 = h @ data_list ?e"
      then show ?thesis using ih by (simp add: tk)
    next
      assume e: "h1 = []"
      then have le: "unat (mtu d) \<le> length ?vs" using ih by simp
      have "drop (length ((h @ data_list ?e) @ ?vs) - unat (mtu d)) ((h @ data_list ?e) @ ?vs)
              = drop (length ?vs - unat (mtu d)) ?vs"
        by (rule drop_window [OF le])
      then show ?thesis using ih le e by (simp add: tk)
    qed
  qed
qed

text \<open>
  Demodulators that differ in the buffer and the counter only show the same on the ports.
\<close>

lemma table_same: "same_but_buffer d1 d2 \<Longrightarrow> table d1 = table d2"
  by (auto simp: same_but_buffer_def table_def split: chirp_ref.splits)

lemma match1_same:
  "same_but_buffer d1 d2 \<Longrightarrow> framesync_match1 mul io d1 v = framesync_match1 mul io d2 v"
  using table_same [of d1 d2]
  by (auto simp: framesync_match1_def same_but_buffer_def split: sum.splits)

lemma work_switch_same:
  assumes "same_but_buffer d1 d2"
  shows "rel_sum (=) (\<lambda>r1 r2. same_but_buffer (fst r1) (fst r2) \<and> snd r1 = snd r2)
           (work_switch mul io d1 v decd) (work_switch mul io d2 v decd)"
proof (cases "state d1")
  case STATE_FRAMESYNC
  then show ?thesis
    using assms
    by (auto simp: work_switch_def match1_same [OF assms] work_end_def Let_def same_but_buffer_def
        split: sum.splits prod.splits)
next
  case STATE_DOWNCHIRP0
  then show ?thesis
    using assms by (auto simp: work_switch_def work_end_def Let_def same_but_buffer_def)
next
  case STATE_DOWNCHIRP1
  then show ?thesis
    using assms by (auto simp: work_switch_def work_end_def Let_def same_but_buffer_def)
next
  case STATE_QUARTERCHIRP
  then show ?thesis
    using assms by (auto simp: work_switch_def work_end_def Let_def same_but_buffer_def)
next
  case STATE_DATASYMBOLS
  then show ?thesis
    using assms by (auto simp: work_switch_def work_end_def Let_def same_but_buffer_def)
qed

lemma work_same:
  assumes "same_but_buffer d1 d2"
  shows "rel_sum (=) (\<lambda>r1 r2. same_but_buffer (fst r1) (fst r2) \<and> snd r1 = snd r2)
           (work mul io d1) (work mul io d2)"
proof -
  have n: "N d1 = N d2" "detector d1 = detector d2"
    using assms by (simp_all add: same_but_buffer_def)
  show ?thesis
    using work_switch_same [OF assms, of mul io] assms
    by (auto simp: work_def n table_same [OF assms] split: sum.splits)
qed

lemma run_same:
  assumes "same_but_buffer d1 d2"
  shows "observed (run mul ps s d1) = observed (run mul ps s d2)"
  using assms
proof (induction ps arbitrary: s d1 d2)
  case Nil
  then show ?case by (simp add: observed_def)
next
  case (Cons p ps)
  let ?io = "\<lparr>inBuff = s, rawElements = fst p, decElements = snd p\<rparr>"
  have rel: "rel_sum (=) (\<lambda>r1 r2. same_but_buffer (fst r1) (fst r2) \<and> snd r1 = snd r2)
               (work mul ?io d1) (work mul ?io d2)"
    by (rule work_same [OF Cons.prems])
  have st: "state d1 = state d2"
    using Cons.prems by (simp add: same_but_buffer_def)
  show ?case
  proof (cases "work mul ?io d1")
    case (Inl e1)
    then show ?thesis
      using rel by (cases "work mul ?io d2") (simp_all add: observed_def)
  next
    case (Inr r1)
    obtain a1 o1 where r1: "r1 = (a1, o1)" by (cases r1)
    from rel Inr r1 obtain a2 where w2: "work mul ?io d2 = Inr (a2, o1)"
      and sb: "same_but_buffer a1 a2"
      by (cases "work mul ?io d2") auto
    from Cons.IH [OF sb, of "drop (unat (consumed o1)) s"]
    show ?thesis
      using Inr r1 w2 st
      by (auto simp: observed_def split: sum.splits)
  qed
qed

subsection \<open>The instance\<close>

lemma demo_config: "config_ok demo"
  by (simp add: config_ok_def demo_def)

lemma demo_fields:
  "N demo = 8" "sync demo = 0x11" "state demo = STATE_FRAMESYNC" "prevValue demo = 0"
  "mtu demo = 2" "chirpTable demo = UpChirpTable"
  by (simp_all add: demo_def)

lemma demo_built:
  "map_sum id (\<lambda>d. activate (setMTU (setSync d 0x11) 2))
     (LoRaDemod (demo\<lparr>state := STATE_DATASYMBOLS\<rparr>) (\<lambda>i. 1) (\<lambda>i. 1) 3) = Inr demo"
  by (simp add: LoRaDemod_def demo_def activate_def setMTU_def setSync_def upt_rec)

lemma demo_activate: "activate demo = demo"
  by (simp add: activate_def demo_def)

lemma demo_syncd: "framesync_syncd (prevValue demo)"
  by (simp add: demo_fields framesync_syncd_def c_div_def)

lemma demo_first_value: "block_value (*) demo (inBuff demo_in) 0 = 3"
  by (simp add: block_value_def demo_def demo_in_def table_def upt_rec)

lemma demo_sync_values:
  "block_value (*) demo (inBuff demo_sync_in) 0 = 4"
  "block_value (*) demo (inBuff demo_sync_in) (unat (N demo)) = 5"
  by (simp_all add: block_value_def demo_def demo_sync_in_def table_def upt_rec)

lemma demo_matches:
  "framesync_match0 (detector demo (map2 (*) demo_b0 (upChirpTable demo))) (sync demo)"
  "sync_word1 (detector demo (map2 (*) demo_b1 (upChirpTable demo))) (sync demo)"
  by (simp_all add: demo_def demo_b0_def demo_b1_def framesync_match0_def sync_word1_def)

lemma demo_lengths:
  "length demo_b0 = unat (N demo)" "length demo_b1 = unat (N demo)"
  "length demo_quiet = unat (N demo)" "length demo_q = unat (N demo) div 4"
  "length demo_blocks = unat (mtu demo)" "\<forall>b\<in>set demo_blocks. length b = unat (N demo)"
  "length demo_ports = 4 + unat (mtu demo)" "\<forall>p\<in>set demo_ports. ports_ok demo p"
  by (simp_all add: demo_fields demo_b0_def demo_b1_def demo_quiet_def demo_q_def
      demo_blocks_def demo_ports_def ports_ok_def)

lemma demo_run_eval:
  "map_sum id (\<lambda>(d, s, tr). (s, length tr, map (\<lambda>e. posted (snd e)) tr, data_values tr))
     (run (*) demo_ports demo_stream (activate demo))
   = Inr (demo_quiet, 6, [None, None, None, None, None, Some [Some 6, Some 7]], [6, 7])"
  by code_simp

subsection \<open>A full frame\<close>

text \<open>
  From \<^verbatim>\<open>STATE_FRAMESYNC\<close> with a previous value that passes \<^verbatim>\<open>syncd\<close>, the calls over
  the two sync blocks, the two down-chirp blocks, the quarter chirp and the \<open>mtu\<close> data
  blocks.
\<close>

lemma frame_steps:
  assumes cfg: "config_ok d" and st: "state d = STATE_FRAMESYNC"
    and up: "chirpTable d = UpChirpTable"
    and nz: "mtu d \<noteq> 0"
    and sy: "framesync_syncd (prevValue d)"
    and m0: "framesync_match0 (detector d (map2 mul b0 (upChirpTable d))) (sync d)"
    and m1: "sync_word1 (detector d (map2 mul b1 (upChirpTable d))) (sync d)"
    and l0: "length b0 = unat (N d)" and l1: "length b1 = unat (N d)"
    and l2: "length dc0 = unat (N d)" and l3: "length dc1 = unat (N d)"
    and lq: "length q = unat (N d) div 4"
    and lbs: "length blocks = unat (mtu d)" and lb: "\<forall>b\<in>set blocks. length b = unat (N d)"
    and lr: "unat (N d) \<le> length rest"
    and lps: "length ps = 4 + unat (mtu d)" and pok: "\<forall>p\<in>set ps. ports_ok d p"
  shows "\<exists>d' tr. run mul ps (b0 @ b1 @ dc0 @ dc1 @ q @ concat blocks @ rest) d = Inr (d', rest, tr)
           \<and> map fst tr = [STATE_FRAMESYNC, STATE_DOWNCHIRP0, STATE_DOWNCHIRP1, STATE_QUARTERCHIRP]
                            @ replicate (unat (mtu d)) STATE_DATASYMBOLS
           \<and> state d' = STATE_FRAMESYNC
           \<and> frames tr = [map (\<lambda>b. Some (ucast (detector d (map2 mul b (upChirpTable d))))) blocks]"
proof -
  obtain p1 p2 p3 p4 ps' where ps: "ps = [p1, p2, p3, p4] @ ps'"
    using lps by (auto simp: length_Suc_conv numeral_eq_Suc)
  have ps': "length ps' = length blocks" using lps lbs ps by simp
  have pk: "ports_ok d p1" "ports_ok d p2" "ports_ok d p3" "ports_ok d p4"
    using pok ps by simp_all
  have ne: "blocks \<noteq> []"
    using nz lbs by (auto simp: unat_eq_0)
  then obtain b bs where bl: "blocks = b # bs" by (cases blocks) auto
  have lrst: "2 * unat (N d) \<le> length q + length (concat blocks @ rest)"
    using lb lr bl by simp
  from preamble_steps [OF cfg st up sy m0 m1 l0 l1 l2 l3 lq lrst pk]
  obtain d4 tr4 where
    r4: "run mul [p1, p2, p3, p4] (b0 @ b1 @ dc0 @ dc1 @ q @ concat blocks @ rest) d
           = Inr (d4, concat blocks @ rest, tr4)"
    and t4: "map fst tr4 = [STATE_FRAMESYNC, STATE_DOWNCHIRP0, STATE_DOWNCHIRP1, STATE_QUARTERCHIRP]"
    and f4: "frames tr4 = []"
    and d4: "state d4 = STATE_DATASYMBOLS" "chirpTable d4 = UpChirpTable" "symCount d4 = 0"
      "outSymbols d4 = replicate (unat (mtu d)) None"
    and same: "N d4 = N d" "detector d4 = detector d" "mtu d4 = mtu d" "sync d4 = sync d"
      "upChirpTable d4 = upChirpTable d" "downChirpTable d4 = downChirpTable d"
    by (elim exE conjE) (rule that, assumption+)
  have c4: "config_ok d4" using cfg same by (simp add: config_ok_def)
  have h: "length (outSymbols d4) = unat (symCount d4) + length blocks"
    "unat (mtu d4) = unat (symCount d4) + length blocks"
    "\<forall>b\<in>set blocks. length b = unat (N d4)" "unat (N d4) \<le> length rest"
    "\<forall>p\<in>set ps'. ports_ok d4 p"
    using d4 same lbs lb lr pok ps by (simp_all add: ports_ok_def)
  from data_loop [OF ne c4 d4(1,2) h(1-4) ps' h(5), of mul]
  obtain d' tr where r: "run mul ps' (concat blocks @ rest) d4 = Inr (d', rest, tr)"
    and e: "state d' = STATE_FRAMESYNC"
    and t: "map fst tr = replicate (length blocks) STATE_DATASYMBOLS"
    and f: "frames tr = [take (unat (symCount d4)) (outSymbols d4)
              @ map (\<lambda>b. Some (ucast (detector d4 (map2 mul b (upChirpTable d4))))) blocks]"
    by blast
  have "run mul ps (b0 @ b1 @ dc0 @ dc1 @ q @ concat blocks @ rest) d = Inr (d', rest, tr4 @ tr)"
    unfolding ps by (rule run_append [OF r4 r])
  then show ?thesis
    using e t4 t f4 f d4 same lbs by (simp add: frames_append)
qed

text \<open>
  C1, as the code has it. The demodulator is in \<^verbatim>\<open>STATE_FRAMESYNC\<close> with the up-chirp
  reference, and the buffered input holds a full frame behind its preamble symbol: a block
  whose detected value is near zero (it is below \<open>N\<close>, \<open>N\<close> is at most \<open>2^15\<close>, and it
  passes \<^verbatim>\<open>(_prevValue+1)/2 == 0\<close> once the call has stored it in \<^verbatim>\<open>_prevValue\<close>), two blocks
  whose values match the high and the low nibble of the sync word, two down-chirp blocks,
  a quarter-chirp block of \<open>N/4\<close> samples, and \<open>mtu\<close> data blocks, followed by at least
  \<open>N\<close> more samples (\<^verbatim>\<open>work()\<close> processes a block only when \<open>2N\<close> samples are
  buffered). The call on the preamble block does not itself find the sync word: not all of
  \<^verbatim>\<open>syncd\<close> (of the value before the preamble), \<^verbatim>\<open>match0\<close> (of the preamble value) and
  \<^verbatim>\<open>match1\<close> (of the first sync block) hold. The MTU is not zero. Then \<open>5 + mtu\<close> calls
  with room in both debug ports are made in the states \<^verbatim>\<open>FRAMESYNC\<close> (the preamble),
  \<^verbatim>\<open>FRAMESYNC\<close> (the sync word), \<^verbatim>\<open>DOWNCHIRP0\<close>, \<^verbatim>\<open>DOWNCHIRP1\<close>, \<^verbatim>\<open>QUARTERCHIRP\<close> and
  \<open>mtu\<close> times \<^verbatim>\<open>DATASYMBOLS\<close>, leave the demodulator in \<^verbatim>\<open>FRAMESYNC\<close>, consume
  exactly the preamble and the frame, and post exactly one frame: the \<open>mtu\<close> values
  detected on the data blocks, in order, each as a 16-bit cell.
\<close>

theorem full_frame:
  assumes cfg: "config_ok d" and st: "state d = STATE_FRAMESYNC"
    and up: "chirpTable d = UpChirpTable"
    and nz: "mtu d \<noteq> 0"
    and n15: "unat (N d) \<le> 2 ^ 15"
    and lp: "length pre = unat (N d)"
    and vp: "detector d (map2 mul pre (upChirpTable d)) < N d"
    and near: "framesync_syncd (ucast (detector d (map2 mul pre (upChirpTable d))))"
    and nosync: "\<not> (framesync_syncd (prevValue d)
          \<and> framesync_match0 (detector d (map2 mul pre (upChirpTable d))) (sync d)
          \<and> sync_word1 (detector d (map2 mul b0 (upChirpTable d))) (sync d))"
    and m0: "framesync_match0 (detector d (map2 mul b0 (upChirpTable d))) (sync d)"
    and m1: "sync_word1 (detector d (map2 mul b1 (upChirpTable d))) (sync d)"
    and l0: "length b0 = unat (N d)" and l1: "length b1 = unat (N d)"
    and l2: "length dc0 = unat (N d)" and l3: "length dc1 = unat (N d)"
    and lq: "length q = unat (N d) div 4"
    and lbs: "length blocks = unat (mtu d)" and lb: "\<forall>b\<in>set blocks. length b = unat (N d)"
    and lr: "unat (N d) \<le> length rest"
    and lps: "length ps = 5 + unat (mtu d)" and pok: "\<forall>p\<in>set ps. ports_ok d p"
  shows "\<exists>d' tr. run mul ps (pre @ b0 @ b1 @ dc0 @ dc1 @ q @ concat blocks @ rest) d
                    = Inr (d', rest, tr)
           \<and> map fst tr = [STATE_FRAMESYNC, STATE_FRAMESYNC, STATE_DOWNCHIRP0, STATE_DOWNCHIRP1,
                            STATE_QUARTERCHIRP] @ replicate (unat (mtu d)) STATE_DATASYMBOLS
           \<and> state d' = STATE_FRAMESYNC
           \<and> frames tr = [map (\<lambda>b. Some (ucast (detector d (map2 mul b (upChirpTable d))))) blocks]"
proof -
  let ?vp = "detector d (map2 mul pre (upChirpTable d))"
  let ?frame = "b0 @ b1 @ dc0 @ dc1 @ q @ concat blocks @ rest"
  let ?d1 = "d\<lparr>label_id := ''X'', prevValue := ucast ?vp\<rparr>"
  obtain p0 ps0 where ps: "ps = p0 # ps0"
    using lps by (cases ps) auto
  have ps0: "length ps0 = 4 + unat (mtu d)" "\<forall>p\<in>set ps0. ports_ok ?d1 p" "ports_ok d p0"
    using lps pok ps by (simp_all add: ports_ok_def)
  \<comment> \<open>the preamble value is 0, so the call consumes the whole block\<close>
  have "unat ?vp < 2 ^ 15"
    using vp n15 by (simp add: word_less_nat_alt)
  with near have z: "?vp = 0"
    by (rule near_zero_value)
  have v: "block_value mul d (pre @ ?frame) 0 = ?vp"
    using block_value_head [OF cfg lp, of mul ?frame] up by (simp add: table_def)
  have v0: "block_value mul d (pre @ ?frame) (unat (N d))
              = detector d (map2 mul b0 (upChirpTable d))"
    using block_value_at [OF cfg l0, of mul pre "b1 @ dc0 @ dc1 @ q @ concat blocks @ rest"] up lp
    by (simp add: table_def)
  have len: "2 * unat (N d) \<le> length (pre @ ?frame)"
    using lp l0 by simp
  from step_search [OF cfg st len ps0(3), of mul] nosync
  obtain out where
    w: "work mul \<lparr>inBuff = pre @ ?frame, rawElements = fst p0, decElements = snd p0\<rparr> d
          = Inr (?d1, out)"
    and c: "consumed out = N d - ?vp" and po: "posted out = None"
    by (auto simp: v v0)
  have dr: "drop (unat (consumed out)) (pre @ ?frame) = ?frame"
    using lp by (simp add: c z)
  \<comment> \<open>the stored preamble value is the previous value of the sync call\<close>
  have d1: "config_ok ?d1" "state ?d1 = STATE_FRAMESYNC" "chirpTable ?d1 = UpChirpTable"
    "mtu ?d1 \<noteq> 0" "framesync_syncd (prevValue ?d1)"
    "framesync_match0 (detector ?d1 (map2 mul b0 (upChirpTable ?d1))) (sync ?d1)"
    "sync_word1 (detector ?d1 (map2 mul b1 (upChirpTable ?d1))) (sync ?d1)"
    "length b0 = unat (N ?d1)" "length b1 = unat (N ?d1)"
    "length dc0 = unat (N ?d1)" "length dc1 = unat (N ?d1)"
    "length q = unat (N ?d1) div 4"
    "length blocks = unat (mtu ?d1)" "\<forall>b\<in>set blocks. length b = unat (N ?d1)"
    "unat (N ?d1) \<le> length rest"
    "length ps0 = 4 + unat (mtu ?d1)"
    using cfg st up nz near m0 m1 l0 l1 l2 l3 lq lbs lb lr ps0(1)
    by (simp_all add: config_ok_def)
  from frame_steps [OF d1 ps0(2)]
  obtain d' tr where r: "run mul ps0 ?frame ?d1 = Inr (d', rest, tr)"
    and t: "map fst tr = [STATE_FRAMESYNC, STATE_DOWNCHIRP0, STATE_DOWNCHIRP1, STATE_QUARTERCHIRP]
                           @ replicate (unat (mtu d)) STATE_DATASYMBOLS"
    and e: "state d' = STATE_FRAMESYNC"
    and f: "frames tr
              = [map (\<lambda>b. Some (ucast (detector d (map2 mul b (upChirpTable d))))) blocks]"
    by auto
  have "run mul (p0 # ps0) (pre @ ?frame) d = Inr (d', rest, (state d, out) # tr)"
    by (rule run_step [OF w]) (simp only: dr r)
  then show ?thesis
    using st t e f by (simp add: ps frames_Cons po)
qed

theorem full_frame_witness:
  "config_ok demo \<and> state demo = STATE_FRAMESYNC \<and> mtu demo \<noteq> 0
   \<and> unat (N demo) \<le> 2 ^ 15
   \<and> detector demo (map2 (*) demo_quiet (upChirpTable demo)) < N demo
   \<and> framesync_syncd (ucast (detector demo (map2 (*) demo_quiet (upChirpTable demo))))
   \<and> \<not> (framesync_syncd (prevValue demo)
          \<and> framesync_match0 (detector demo (map2 (*) demo_quiet (upChirpTable demo))) (sync demo)
          \<and> sync_word1 (detector demo (map2 (*) demo_b0 (upChirpTable demo))) (sync demo))
   \<and> framesync_match0 (detector demo (map2 (*) demo_b0 (upChirpTable demo))) (sync demo)
   \<and> sync_word1 (detector demo (map2 (*) demo_b1 (upChirpTable demo))) (sync demo)
   \<and> unat (N demo) \<le> length demo_quiet
   \<and> (\<exists>d' tr. run (*) ((16, 16) # demo_ports) (demo_quiet @ demo_stream) demo
                   = Inr (d', demo_quiet, tr)
         \<and> map fst tr = [STATE_FRAMESYNC, STATE_FRAMESYNC, STATE_DOWNCHIRP0, STATE_DOWNCHIRP1,
                          STATE_QUARTERCHIRP, STATE_DATASYMBOLS, STATE_DATASYMBOLS]
         \<and> state d' = STATE_FRAMESYNC
         \<and> frames tr = [Some 6, Some 7] # [])"
proof -
  have nz: "mtu demo \<noteq> 0" by (simp add: demo_fields)
  have n15: "unat (N demo) \<le> 2 ^ 15" by (simp add: demo_fields)
  have lr: "unat (N demo) \<le> length demo_quiet" by (simp add: demo_lengths)
  have pv: "detector demo (map2 (*) demo_quiet (upChirpTable demo)) = 0"
    by (simp add: demo_def demo_quiet_def)
  have vp: "detector demo (map2 (*) demo_quiet (upChirpTable demo)) < N demo"
    by (simp add: pv demo_fields)
  have near: "framesync_syncd (ucast (detector demo (map2 (*) demo_quiet (upChirpTable demo))))"
    by (simp add: pv framesync_syncd_def c_div_def)
  have nosync: "\<not> (framesync_syncd (prevValue demo)
          \<and> framesync_match0 (detector demo (map2 (*) demo_quiet (upChirpTable demo))) (sync demo)
          \<and> sync_word1 (detector demo (map2 (*) demo_b0 (upChirpTable demo))) (sync demo))"
    by (simp add: pv demo_fields framesync_match0_def)
  have lps: "length ((16, 16) # demo_ports) = 5 + unat (mtu demo)"
    "\<forall>p\<in>set ((16, 16) # demo_ports). ports_ok demo p"
    using demo_lengths(7,8) by (simp_all add: ports_ok_def demo_fields)
  have two: "replicate 2 STATE_DATASYMBOLS = [STATE_DATASYMBOLS, STATE_DATASYMBOLS]"
    by (simp add: numeral_2_eq_2)
  have fr: "map (\<lambda>b. Some (ucast (detector demo (map2 (*) b (upChirpTable demo))))) demo_blocks
              = [Some 6, Some (7 :: int16)]"
    by (simp add: demo_def demo_blocks_def)
  from full_frame [OF demo_config demo_fields(3) demo_fields(6) nz n15 demo_lengths(3) vp near
      nosync demo_matches demo_lengths(1,2,3,3,4,5,6) lr lps]
  have "\<exists>d' tr. run (*) ((16, 16) # demo_ports) (demo_quiet @ demo_stream) demo
                   = Inr (d', demo_quiet, tr)
         \<and> map fst tr = [STATE_FRAMESYNC, STATE_FRAMESYNC, STATE_DOWNCHIRP0, STATE_DOWNCHIRP1,
                          STATE_QUARTERCHIRP, STATE_DATASYMBOLS, STATE_DATASYMBOLS]
         \<and> state d' = STATE_FRAMESYNC
         \<and> frames tr = [Some 6, Some 7] # []"
    by (simp add: demo_stream_def [symmetric] two fr demo_fields)
  with nz n15 vp near nosync demo_matches lr demo_config demo_fields(3) show ?thesis
    by blast
qed

text \<open>
  The claim as the specification states it fails for the sync word \<open>0x00\<close>: when the
  value before the preamble was near zero too, the call on the preamble block finds the
  sync word in the preamble and the first sync block, the state machine runs one block
  ahead of the frame, and the frame it posts holds the values 0 and 6, not 6 and 7.
\<close>

theorem full_frame_counterexample:
  "state demo_sync0 = STATE_FRAMESYNC \<and> chirpTable demo_sync0 = UpChirpTable
   \<and> framesync_syncd (prevValue demo_sync0)
   \<and> framesync_syncd (ucast (detector demo_sync0 (map2 (*) demo_quiet (upChirpTable demo_sync0))))
   \<and> framesync_match0 (detector demo_sync0 (map2 (*) demo_c0 (upChirpTable demo_sync0)))
         (sync demo_sync0)
   \<and> sync_word1 (detector demo_sync0 (map2 (*) demo_c1 (upChirpTable demo_sync0)))
         (sync demo_sync0)
   \<and> outline (run (*) ((16, 16) # demo_ports) demo_stream0 demo_sync0)
       = Inr ([STATE_FRAMESYNC, STATE_DOWNCHIRP0, STATE_DOWNCHIRP1, STATE_QUARTERCHIRP,
               STATE_DATASYMBOLS, STATE_DATASYMBOLS, STATE_FRAMESYNC],
              STATE_FRAMESYNC, [Some 0, Some 6] # [])"
  by code_simp

subsection \<open>Frame synchronisation\<close>

text \<open>
  C2. A processing call in \<^verbatim>\<open>STATE_FRAMESYNC\<close> whose detected value is below \<open>N\<close>
  consumes exactly \<open>2N\<close> samples when \<^verbatim>\<open>syncd\<close>, \<^verbatim>\<open>match0\<close> and \<^verbatim>\<open>match1\<close> all hold
  (the second block's value matching the low nibble), and otherwise exactly \<open>N - value\<close>
  samples, which is at least 1 and at most \<open>N\<close>.
\<close>

theorem framesync_consumption:
  assumes "config_ok d" "state d = STATE_FRAMESYNC"
    and "2 * unat (N d) \<le> length (inBuff io)"
    and "ports_ok d (rawElements io, decElements io)"
    and "block_value mul d (inBuff io) 0 < N d"
  shows "\<exists>d' out. work mul io d = Inr (d', out) \<and>
           (if framesync_syncd (prevValue d)
               \<and> framesync_match0 (block_value mul d (inBuff io) 0) (sync d)
               \<and> sync_word1 (block_value mul d (inBuff io) (unat (N d))) (sync d)
            then unat (consumed out) = 2 * unat (N d)
            else unat (consumed out) = unat (N d) - unat (block_value mul d (inBuff io) 0)
                 \<and> 1 \<le> unat (consumed out) \<and> unat (consumed out) \<le> unat (N d))"
proof -
  let ?v = "block_value mul d (inBuff io) 0"
  have sub: "unat (N d - ?v) = unat (N d) - unat ?v"
    using assms(5) by (simp add: unat_sub word_le_less_eq)
  have lt: "unat ?v < unat (N d)"
    using assms(5) by (simp add: word_less_nat_alt)
  have two: "unat (2 * N d) = 2 * unat (N d)"
    using unat_N2 [OF assms(1)] by (simp add: mult.commute)
  have ge1: "Suc 0 \<le> unat (N d) - unat ?v"
    using lt by simp
  show ?thesis
    using sub ge1 two
    by (simp add: work_processing [OF assms(1,3,4)] work_switch_framesync [OF assms(1,2,3)]
        work_end_def)
qed

theorem framesync_consumption_witness:
  "config_ok demo \<and> state demo = STATE_FRAMESYNC
   \<and> 2 * unat (N demo) \<le> length (inBuff demo_in)
   \<and> ports_ok demo (rawElements demo_in, decElements demo_in)
   \<and> block_value (*) demo (inBuff demo_in) 0 < N demo
   \<and> (\<exists>d' out. work (*) demo_in demo = Inr (d', out) \<and> unat (consumed out) = 5)"
proof -
  have h3: "2 * unat (N demo) \<le> length (inBuff demo_in)"
    by (simp add: demo_fields demo_in_def)
  have h4: "ports_ok demo (rawElements demo_in, decElements demo_in)"
    by (simp add: ports_ok_def demo_fields demo_in_def)
  have h5: "block_value (*) demo (inBuff demo_in) 0 < N demo"
    by (simp add: demo_first_value demo_fields)
  have no: "\<not> framesync_match0 (block_value (*) demo (inBuff demo_in) 0) (sync demo)"
    by (simp add: demo_first_value demo_fields framesync_match0_def)
  show ?thesis
    using framesync_consumption [OF demo_config demo_fields(3) h3 h4 h5] no h3 h4 h5
    by (auto simp: demo_first_value demo_fields demo_config)
qed

text \<open>
  C3. In a processing call in \<^verbatim>\<open>STATE_FRAMESYNC\<close>, with \<open>value\<close> detected on the first
  block and \<open>value1\<close> on the second: \<^verbatim>\<open>syncd\<close> holds iff \<open>(prevValue+1)/2 = 0\<close> in the
  truncating division of \<^verbatim>\<open>int\<close> (\<open>sdiv\<close>), which is iff the previous value is -2, -1
  or 0; \<^verbatim>\<open>match0\<close> holds iff \<open>(value+4)/8\<close> is the high nibble of
  the sync byte; when the second block is detected, which is when \<^verbatim>\<open>syncd\<close> and
  \<^verbatim>\<open>match0\<close> hold, \<^verbatim>\<open>match1\<close> holds iff \<open>(value1+4)/8\<close> is the low nibble, and it is
  false when the block is not detected. The call moves to \<^verbatim>\<open>STATE_DOWNCHIRP0\<close>, switches
  to the down-chirp table and posts the label SYNC exactly when the three hold, which is
  exactly when the three arithmetic tests hold; otherwise it stays in
  \<^verbatim>\<open>STATE_FRAMESYNC\<close>, keeps the chirp reference and posts the label X.
\<close>

theorem framesync_decision:
  assumes "config_ok d" "state d = STATE_FRAMESYNC"
    and "2 * unat (N d) \<le> length (inBuff io)"
    and "ports_ok d (rawElements io, decElements io)"
  shows "\<exists>match1 decd1 d' out.
      framesync_match1 mul io d (block_value mul d (inBuff io) 0) = Inr (match1, decd1)
    \<and> (framesync_syncd (prevValue d) \<longleftrightarrow> (sint (prevValue d) + 1) sdiv 2 = 0)
    \<and> (framesync_syncd (prevValue d) \<longleftrightarrow> sint (prevValue d) \<in> {-2, -1, 0})
    \<and> (framesync_match0 (block_value mul d (inBuff io) 0) (sync d) \<longleftrightarrow>
          (block_value mul d (inBuff io) 0 + 4) div 8 = ucast (drop_bit 4 (sync d)))
    \<and> (framesync_syncd (prevValue d)
          \<and> framesync_match0 (block_value mul d (inBuff io) 0) (sync d) \<longrightarrow>
          (match1 \<longleftrightarrow>
             (block_value mul d (inBuff io) (unat (N d)) + 4) div 8 = ucast (sync d AND 0xf)))
    \<and> (\<not> (framesync_syncd (prevValue d)
            \<and> framesync_match0 (block_value mul d (inBuff io) 0) (sync d)) \<longrightarrow> \<not> match1)
    \<and> work mul io d = Inr (d', out)
    \<and> ((state d' = STATE_DOWNCHIRP0 \<and> chirpTable d' = DownChirpTable \<and> label out = Some ''SYNC'')
          \<longleftrightarrow> (framesync_syncd (prevValue d)
                \<and> framesync_match0 (block_value mul d (inBuff io) 0) (sync d) \<and> match1))
    \<and> ((state d' = STATE_DOWNCHIRP0 \<and> chirpTable d' = DownChirpTable \<and> label out = Some ''SYNC'')
          \<longleftrightarrow> ((sint (prevValue d) + 1) sdiv 2 = 0
                \<and> (block_value mul d (inBuff io) 0 + 4) div 8 = ucast (drop_bit 4 (sync d))
                \<and> (block_value mul d (inBuff io) (unat (N d)) + 4) div 8
                    = ucast (sync d AND 0xf)))
    \<and> (\<not> (framesync_syncd (prevValue d)
            \<and> framesync_match0 (block_value mul d (inBuff io) 0) (sync d) \<and> match1) \<longrightarrow>
          state d' = STATE_FRAMESYNC \<and> chirpTable d' = chirpTable d \<and> label out = Some ''X'')"
proof -
  have m1: "framesync_match1 mul io d v =
      Inr (framesync_syncd (prevValue d) \<and> framesync_match0 v (sync d)
             \<and> sync_word1 (block_value mul d (inBuff io) (unat (N d))) (sync d),
           if framesync_syncd (prevValue d) \<and> framesync_match0 v (sync d)
           then map (\<lambda>i. mul (inBuff io ! (unat (N d) + i)) (table d ! i)) [0..<unat (N d)]
           else [])" for v
    using assms(1,3)
    by (auto simp: framesync_match1_def dechirp_ok length_table block_value_def)
  have s1: "(sint (prevValue d) + 1) sdiv 2 = 0 \<longleftrightarrow> framesync_syncd (prevValue d)"
    by (simp add: framesync_syncd_def c_div_sdiv)
  have s2: "sint (prevValue d) \<in> {-2, -1, 0} \<longleftrightarrow> framesync_syncd (prevValue d)"
    by (simp only: syncd_values)
  show ?thesis
    unfolding s1 s2
    using assms(2)
    by (auto simp: m1 work_processing [OF assms(1,3,4)] work_switch_framesync [OF assms(1,2,3)]
        work_end_def framesync_match0_def sync_word1_def)
qed

theorem framesync_decision_witness:
  "config_ok demo \<and> state demo = STATE_FRAMESYNC
   \<and> 2 * unat (N demo) \<le> length (inBuff demo_sync_in)
   \<and> ports_ok demo (rawElements demo_sync_in, decElements demo_sync_in)
   \<and> (\<exists>d' out. work (*) demo_sync_in demo = Inr (d', out)
         \<and> state d' = STATE_DOWNCHIRP0 \<and> chirpTable d' = DownChirpTable
         \<and> label out = Some ''SYNC'')"
proof -
  have h3: "2 * unat (N demo) \<le> length (inBuff demo_sync_in)"
    by (simp add: demo_fields demo_sync_in_def)
  have h4: "ports_ok demo (rawElements demo_sync_in, decElements demo_sync_in)"
    by (simp add: ports_ok_def demo_fields demo_sync_in_def)
  have t: "(sint (prevValue demo) + 1) sdiv 2 = 0"
    "(block_value (*) demo (inBuff demo_sync_in) 0 + 4) div 8 = ucast (drop_bit 4 (sync demo))"
    "(block_value (*) demo (inBuff demo_sync_in) (unat (N demo)) + 4) div 8
       = ucast (sync demo AND 0xf)"
    by (simp_all add: demo_sync_values) (simp_all add: demo_fields signed_divide_int_def)
  from framesync_decision [OF demo_config demo_fields(3) h3 h4, of "(*)"]
  obtain d' out where "work (*) demo_sync_in demo = Inr (d', out)"
    and "(state d' = STATE_DOWNCHIRP0 \<and> chirpTable d' = DownChirpTable \<and> label out = Some ''SYNC'')
          \<longleftrightarrow> ((sint (prevValue demo) + 1) sdiv 2 = 0
                \<and> (block_value (*) demo (inBuff demo_sync_in) 0 + 4) div 8
                    = ucast (drop_bit 4 (sync demo))
                \<and> (block_value (*) demo (inBuff demo_sync_in) (unat (N demo)) + 4) div 8
                    = ucast (sync demo AND 0xf))"
    by blast
  then show ?thesis
    using t h3 h4 demo_config demo_fields(3) by blast
qed

subsection \<open>Emitted frames\<close>

text \<open>
  C5. In every run of \<^verbatim>\<open>work()\<close> calls from an activation, a frame posted by call \<open>i\<close> is
  a buffer of exactly \<open>mtu\<close> 16-bit cells, all written: they are the values detected by the
  last \<open>mtu\<close> calls made in \<^verbatim>\<open>STATE_DATASYMBOLS\<close> up to call \<open>i\<close>, in order, so that the
  value of the \<open>k\<close>-th of these calls is at position \<open>k\<close>. Each cell holds the low 16 bits
  of the value (the element type of the chunk is \<^verbatim>\<open>int16_t\<close>).
\<close>

theorem emitted_frame:
  assumes "run mul ps s (activate d) = Inr (d', s', tr)" "i < length tr"
    and "posted (snd (tr ! i)) = Some f"
  shows "length f = unat (mtu d)
       \<and> unat (mtu d) \<le> length (data_values (take (Suc i) tr))
       \<and> f = map (\<lambda>v. Some (ucast v))
               (drop (length (data_values (take (Suc i) tr)) - unat (mtu d))
                  (data_values (take (Suc i) tr)))"
proof -
  have a: "assembling (activate d) []"
    by (simp add: assembling_def activate_def)
  have m: "mtu (activate d) = mtu d"
    by (simp add: activate_def)
  from posted_frame_values [OF a assms] m
  have le: "unat (mtu d) \<le> length (data_values (take (Suc i) tr))"
    and f: "f = map (\<lambda>v. Some (ucast v))
               (drop (length (data_values (take (Suc i) tr)) - unat (mtu d))
                  (data_values (take (Suc i) tr)))"
    by simp_all
  have "length f = unat (mtu d)"
    using le by (subst f) simp
  then show ?thesis using le f by blast
qed

theorem emitted_frame_witness:
  "\<exists>d' tr. run (*) demo_ports demo_stream (activate demo) = Inr (d', demo_quiet, tr)
     \<and> 5 < length tr \<and> posted (snd (tr ! 5)) = Some [Some 6, Some 7]
     \<and> length [Some 6, Some (7 :: int16)] = unat (mtu demo)
     \<and> data_values (take (Suc 5) tr) = [6, 7]
     \<and> [Some 6, Some 7] = map (\<lambda>v. Some (ucast v :: int16))
          (drop (length (data_values (take (Suc 5) tr)) - unat (mtu demo))
             (data_values (take (Suc 5) tr)))"
proof -
  from demo_run_eval obtain d' tr where
    r: "run (*) demo_ports demo_stream (activate demo) = Inr (d', demo_quiet, tr)"
    and l: "length tr = 6"
    and p: "map (\<lambda>e. posted (snd e)) tr = [None, None, None, None, None, Some [Some 6, Some 7]]"
    and v: "data_values tr = [6, 7]"
    by (cases "run (*) demo_ports demo_stream (activate demo)") auto
  have i: "5 < length tr" using l by simp
  have "map (\<lambda>e. posted (snd e)) tr ! 5 = posted (snd (tr ! 5))"
    using i by (rule nth_map)
  then have p5: "posted (snd (tr ! 5)) = Some [Some 6, Some 7]"
    by (simp add: p)
  have tk: "take (Suc 5) tr = tr" using l by simp
  have dv: "data_values (take (Suc 5) tr) = [6, 7]"
    by (simp only: tk v)
  from emitted_frame [OF r i p5]
  have e1: "length [Some 6, Some (7 :: int16)] = unat (mtu demo)"
    and e2: "[Some 6, Some 7] = map (\<lambda>v. Some (ucast v :: int16))
          (drop (length (data_values (take (Suc 5) tr)) - unat (mtu demo))
             (data_values (take (Suc 5) tr)))"
    by blast+
  show ?thesis
    by (rule exI [of _ d'], rule exI [of _ tr]) (intro conjI r i p5 e1 dv e2)
qed

subsection \<open>Configuration\<close>

text \<open>
  C6, as the code has it. Neither the constructor nor \<^verbatim>\<open>setMTU\<close> checks its argument or
  signals anything: for every \<open>sf\<close> below 31 the constructor returns a demodulator with
  \<open>N = 2^sf\<close>, which is positive, and MTU 256; and \<^verbatim>\<open>setMTU\<close> stores every value,
  zero included, and changes nothing else.
\<close>

theorem configuration_unchecked:
  assumes "sf < 31"
  shows "\<exists>d. LoRaDemod mem up down sf = Inr d \<and> unat (N d) = 2 ^ sf \<and> N d \<noteq> 0
            \<and> config_ok d \<and> mtu d = 256
            \<and> setMTU d m = d\<lparr>mtu := m\<rparr> \<and> mtu (setMTU d m) = m"
proof -
  have lt: "(2::nat) ^ sf < 2 ^ 63"
    using assms by (intro power_strict_increasing) simp_all
  have "(2::nat) ^ sf < 2 ^ 64"
    using assms by (intro power_strict_increasing) simp_all
  then have u: "unat (push_bit sf 1 :: size_t) = 2 ^ sf"
    using unat_of_nat [of "2 ^ sf", where 'a = 64] by simp
  then have nz: "(push_bit sf 1 :: size_t) \<noteq> 0"
    by (metis unat_0 power_not_zero zero_neq_numeral)
  show ?thesis
    using assms u nz lt
    by (simp add: LoRaDemod_def setMTU_def config_ok_def)
qed

theorem configuration_unchecked_witness:
  "(3::nat) < 31
   \<and> (\<exists>d. LoRaDemod (demo\<lparr>state := STATE_DATASYMBOLS\<rparr>) (\<lambda>i. 1) (\<lambda>i. 1) 3 = Inr d
         \<and> unat (N d) = 2 ^ 3 \<and> N d \<noteq> 0 \<and> mtu d = 256 \<and> mtu (setMTU d 0) = 0)"
  using configuration_unchecked [of 3 "demo\<lparr>state := STATE_DATASYMBOLS\<rparr>" "\<lambda>i. 1" "\<lambda>i. 1" 0]
  by auto

text \<open>
  The claim as the specification states it fails: \<^verbatim>\<open>setMTU(0)\<close> on the instance is
  accepted, and the demodulator it returns has MTU 0.
\<close>

theorem setMTU_zero_counterexample:
  "mtu (setMTU demo 0) = 0 \<and> setMTU demo 0 = demo\<lparr>mtu := 0\<rparr>"
  by (simp add: setMTU_def)

subsection \<open>Re-activation\<close>

text \<open>
  C7. \<^verbatim>\<open>activate()\<close> sets the state to \<^verbatim>\<open>STATE_FRAMESYNC\<close>, and what the buffer under
  assembly held and how far it was filled has no effect on anything the demodulator does
  afterwards: with any buffer \<open>buf\<close> and any counter \<open>cnt\<close> in place of its own at the time
  of the activation, every run of \<^verbatim>\<open>work()\<close> calls consumes the same input, posts the same
  frames and labels, and runs into the same undefined behaviour. The member
  \<^verbatim>\<open>_outSymbols\<close> itself is replaced in \<^verbatim>\<open>STATE_DOWNCHIRP1\<close>, before any symbol is stored.
\<close>

theorem reactivation_discards_buffer:
  "state (activate d) = STATE_FRAMESYNC
   \<and> observed (run mul ps s (activate (d\<lparr>outSymbols := buf, symCount := cnt\<rparr>)))
       = observed (run mul ps s (activate d))"
proof -
  have "same_but_buffer (activate (d\<lparr>outSymbols := buf, symCount := cnt\<rparr>)) (activate d)"
    by (simp add: same_but_buffer_def activate_def)
  from run_same [OF this] show ?thesis
    by (simp add: activate_def)
qed

theorem reactivation_discards_buffer_witness:
  "state (activate (demo\<lparr>state := STATE_DATASYMBOLS\<rparr>)) = STATE_FRAMESYNC
   \<and> observed (run (*) demo_ports demo_stream
        (activate (demo\<lparr>state := STATE_DATASYMBOLS, outSymbols := [Some 9, None], symCount := 1\<rparr>)))
       = observed (run (*) demo_ports demo_stream (activate (demo\<lparr>state := STATE_DATASYMBOLS\<rparr>)))"
  using reactivation_discards_buffer
    [where d = "demo\<lparr>state := STATE_DATASYMBOLS\<rparr>" and mul = "(*)" and ps = demo_ports
       and s = demo_stream and buf = "[Some 9, None]" and cnt = 1]
  by simp

subsection \<open>Early returns\<close>

text \<open>
  C8. A call of \<^verbatim>\<open>work()\<close> that finds fewer than \<open>2N\<close> unconsumed input samples, or
  fewer than \<open>2N\<close> free elements in the raw or in the dec debug buffer, returns the
  demodulator as it was (state, previous value, symbol counter, chirp reference and output
  buffer included), consumes nothing, and posts neither a frame nor a label. \<open>N\<close> is
  below \<open>2^63\<close>, as the constructor leaves it, so that \<^verbatim>\<open>N*2\<close> is \<open>2N\<close>.
\<close>

theorem idle_step:
  assumes "unat (N d) < 2 ^ 63"
    and "length (inBuff io) < 2 * unat (N d) \<or> unat (rawElements io) < 2 * unat (N d)
         \<or> unat (decElements io) < 2 * unat (N d)"
  shows "\<exists>out. work mul io d = Inr (d, out) \<and> consumed out = 0 \<and> posted out = None
           \<and> label out = None"
proof -
  have n2: "unat (N d * 2) = 2 * unat (N d)"
    using assms(1) by (simp add: unat_word_ariths)
  show ?thesis
    using assms(2) by (auto simp: work_def early_return_def n2 word_less_nat_alt)
qed

theorem idle_step_witness:
  "unat (N demo) < 2 ^ 63
   \<and> (length (inBuff \<lparr>inBuff = [3, 0, 0], rawElements = 16, decElements = 16\<rparr>)
         < 2 * unat (N demo)
      \<or> unat (rawElements \<lparr>inBuff = [3, 0, 0], rawElements = 16, decElements = 16\<rparr>)
         < 2 * unat (N demo)
      \<or> unat (decElements \<lparr>inBuff = [3, 0, 0], rawElements = 16, decElements = 16\<rparr>)
         < 2 * unat (N demo))
   \<and> (\<exists>out. work (*) \<lparr>inBuff = [3, 0, 0], rawElements = 16, decElements = 16\<rparr> demo
                 = Inr (demo, out)
          \<and> consumed out = 0 \<and> posted out = None \<and> label out = None)"
  using idle_step [of demo "\<lparr>inBuff = [3, 0, 0], rawElements = 16, decElements = 16\<rparr>" "(*)"]
  by (simp add: demo_def)

subsection \<open>The chirp reference\<close>

text \<open>
  C9. In every demodulator reachable from an activation, the chirp reference is the
  down-chirp table when the state is \<^verbatim>\<open>STATE_DOWNCHIRP0\<close> or \<^verbatim>\<open>STATE_DOWNCHIRP1\<close> and the
  up-chirp table when it is \<^verbatim>\<open>STATE_FRAMESYNC\<close>, \<^verbatim>\<open>STATE_QUARTERCHIRP\<close> or
  \<^verbatim>\<open>STATE_DATASYMBOLS\<close>; and every call of \<^verbatim>\<open>work()\<close> from such a demodulator leaves one
  of which the same holds.
\<close>

theorem chirp_reference:
  assumes "reachable mul d"
  shows "(state d = STATE_DOWNCHIRP0 \<or> state d = STATE_DOWNCHIRP1 \<longrightarrow>
            chirpTable d = DownChirpTable \<and> table d = downChirpTable d)
       \<and> (state d = STATE_FRAMESYNC \<or> state d = STATE_QUARTERCHIRP
            \<or> state d = STATE_DATASYMBOLS \<longrightarrow>
            chirpTable d = UpChirpTable \<and> table d = upChirpTable d)
       \<and> (\<forall>io d' out. work mul io d = Inr (d', out) \<longrightarrow>
            (chirpTable d' = DownChirpTable)
              = (state d' = STATE_DOWNCHIRP0 \<or> state d' = STATE_DOWNCHIRP1))"
proof -
  have ok: "chirp_ok d"
    using assms
  proof (induction rule: reachable.induct)
    case (activated d)
    show ?case by (simp add: chirp_ok_def activate_def)
  next
    case (worked d io d' out)
    then show ?case by (blast intro: work_chirp_ok)
  next
    case (sync_set d s)
    then show ?case by (simp add: chirp_ok_def setSync_def)
  next
    case (mtu_set d m)
    then show ?case by (simp add: chirp_ok_def setMTU_def)
  qed
  have step: "\<forall>io d' out. work mul io d = Inr (d', out) \<longrightarrow>
            (chirpTable d' = DownChirpTable)
              = (state d' = STATE_DOWNCHIRP0 \<or> state d' = STATE_DOWNCHIRP1)"
    using work_chirp_ok [OF ok] by (simp add: chirp_ok_def)
  from ok have "(state d = STATE_DOWNCHIRP0 \<or> state d = STATE_DOWNCHIRP1 \<longrightarrow>
            chirpTable d = DownChirpTable \<and> table d = downChirpTable d)
       \<and> (state d = STATE_FRAMESYNC \<or> state d = STATE_QUARTERCHIRP
            \<or> state d = STATE_DATASYMBOLS \<longrightarrow>
            chirpTable d = UpChirpTable \<and> table d = upChirpTable d)"
    by (cases "state d"; cases "chirpTable d") (auto simp: chirp_ok_def table_def)
  with step show ?thesis by blast
qed

theorem chirp_reference_witness:
  "reachable (*) (activate demo)
   \<and> state (activate demo) = STATE_FRAMESYNC
   \<and> chirpTable (activate demo) = UpChirpTable
   \<and> table (activate demo) = upChirpTable (activate demo)"
proof -
  have r: "reachable (*) (activate demo)"
    by (rule reachable.activated)
  have s: "state (activate demo) = STATE_FRAMESYNC"
    by (simp add: activate_def)
  from chirp_reference [OF r] s
  have "chirpTable (activate demo) = UpChirpTable
      \<and> table (activate demo) = upChirpTable (activate demo)"
    by blast
  with r s show ?thesis by blast
qed

subsection \<open>An MTU of zero\<close>

text \<open>
  C10. After \<^verbatim>\<open>setMTU(0)\<close> and an activation, the four calls over a matching sync word,
  the two down-chirp blocks and the quarter chirp leave the demodulator in
  \<^verbatim>\<open>STATE_DATASYMBOLS\<close> with a counter of 0 and a buffer allocated with 0 cells, so that
  the counter is not below the number of cells; and the next processing call writes cell
  0 of that buffer, outside it.
\<close>

theorem zero_mtu_out_of_bounds:
  assumes cfg: "config_ok d"
    and sy: "framesync_syncd (prevValue d)"
    and m0: "framesync_match0 (detector d (map2 mul b0 (upChirpTable d))) (sync d)"
    and m1: "sync_word1 (detector d (map2 mul b1 (upChirpTable d))) (sync d)"
    and l0: "length b0 = unat (N d)" and l1: "length b1 = unat (N d)"
    and l2: "length dc0 = unat (N d)" and l3: "length dc1 = unat (N d)"
    and lq: "length q = unat (N d) div 4"
    and lr: "2 * unat (N d) \<le> length rest"
    and pok: "ports_ok d p1" "ports_ok d p2" "ports_ok d p3" "ports_ok d p4" "ports_ok d p5"
  shows "\<exists>d4 tr. run mul [p1, p2, p3, p4] (b0 @ b1 @ dc0 @ dc1 @ q @ rest) (activate (setMTU d 0))
                    = Inr (d4, rest, tr)
           \<and> state d4 = STATE_DATASYMBOLS
           \<and> outSymbols d4 = [] \<and> symCount d4 = 0
           \<and> \<not> unat (symCount d4) < length (outSymbols d4)
           \<and> work mul \<lparr>inBuff = rest, rawElements = fst p5, decElements = snd p5\<rparr> d4
                = Inl OutOfBounds"
proof -
  let ?d = "activate (setMTU d 0)"
  have a: "config_ok ?d" "state ?d = STATE_FRAMESYNC" "chirpTable ?d = UpChirpTable"
    "framesync_syncd (prevValue ?d)"
    "framesync_match0 (detector ?d (map2 mul b0 (upChirpTable ?d))) (sync ?d)"
    "sync_word1 (detector ?d (map2 mul b1 (upChirpTable ?d))) (sync ?d)"
    "length b0 = unat (N ?d)" "length b1 = unat (N ?d)" "length dc0 = unat (N ?d)"
    "length dc1 = unat (N ?d)" "length q = unat (N ?d) div 4"
    "2 * unat (N ?d) \<le> length q + length rest"
    "ports_ok ?d p1" "ports_ok ?d p2" "ports_ok ?d p3" "ports_ok ?d p4"
    using assms by (simp_all add: activate_def setMTU_def config_ok_def ports_ok_def)
  from preamble_steps [OF a]
  obtain d4 tr4 where
    r4: "run mul [p1, p2, p3, p4] (b0 @ b1 @ dc0 @ dc1 @ q @ rest) ?d = Inr (d4, rest, tr4)"
    and d4: "state d4 = STATE_DATASYMBOLS" "symCount d4 = 0"
      "outSymbols d4 = replicate (unat (mtu ?d)) None"
    and same: "N d4 = N ?d" "upChirpTable d4 = upChirpTable ?d"
      "downChirpTable d4 = downChirpTable ?d"
    by blast
  have e: "outSymbols d4 = []"
    using d4(3) by (simp add: activate_def setMTU_def)
  have n: "N d4 = N d"
    using same by (simp add: activate_def setMTU_def)
  have c4: "config_ok d4"
    using a(1) same by (simp add: config_ok_def)
  have "work mul \<lparr>inBuff = rest, rawElements = fst p5, decElements = snd p5\<rparr> d4 = Inl OutOfBounds"
    using work_processing
        [OF c4, of "\<lparr>inBuff = rest, rawElements = fst p5, decElements = snd p5\<rparr>" mul]
      lr pok(5) d4 e
    by (simp add: n ports_ok_def work_switch_def)
  then show ?thesis
    using r4 d4 e by simp
qed

theorem zero_mtu_out_of_bounds_witness:
  "config_ok demo \<and> framesync_syncd (prevValue demo)
   \<and> 2 * unat (N demo) \<le> length (demo_quiet @ demo_quiet)
   \<and> mtu (activate (setMTU demo 0)) = 0
   \<and> (\<exists>d4 tr. run (*) [(16, 16), (16, 16), (16, 16), (16, 16)]
                  (demo_b0 @ demo_b1 @ demo_quiet @ demo_quiet @ demo_q @ demo_quiet @ demo_quiet)
                  (activate (setMTU demo 0))
                = Inr (d4, demo_quiet @ demo_quiet, tr)
         \<and> state d4 = STATE_DATASYMBOLS \<and> outSymbols d4 = [] \<and> symCount d4 = 0
         \<and> work (*) \<lparr>inBuff = demo_quiet @ demo_quiet, rawElements = 16, decElements = 16\<rparr> d4
              = Inl OutOfBounds)"
proof -
  have lr: "2 * unat (N demo) \<le> length (demo_quiet @ demo_quiet)"
    by (simp add: demo_fields demo_quiet_def)
  have pk: "ports_ok demo (16, 16)"
    by (simp add: ports_ok_def demo_fields)
  have z: "mtu (activate (setMTU demo 0)) = 0"
    by (simp add: activate_def setMTU_def)
  from zero_mtu_out_of_bounds [OF demo_config demo_syncd demo_matches demo_lengths(1,2,3,3,4) lr
      pk pk pk pk pk]
  have "\<exists>d4 tr. run (*) [(16, 16), (16, 16), (16, 16), (16, 16)]
                  (demo_b0 @ demo_b1 @ demo_quiet @ demo_quiet @ demo_q @ demo_quiet @ demo_quiet)
                  (activate (setMTU demo 0))
                = Inr (d4, demo_quiet @ demo_quiet, tr)
         \<and> state d4 = STATE_DATASYMBOLS \<and> outSymbols d4 = [] \<and> symCount d4 = 0
         \<and> work (*) \<lparr>inBuff = demo_quiet @ demo_quiet, rawElements = 16, decElements = 16\<rparr> d4
              = Inl OutOfBounds"
    by (simp only: fst_conv snd_conv) blast
  with lr z demo_config demo_syncd show ?thesis by blast
qed

end
